theory Spec2Isabelle
  imports
    Complex_Main
    "HOL-Library.AList"
    "HOL-Library.Char_ord"
    "HOL-Library.List_Lexorder"
    "HOL-Library.Multiset"
begin

section \<open>Sentence classification by MorphConv: the notebook as HOL functions\<close>

text \<open>
  The notebook \<^verbatim>\<open>challenge_nsmc/Sentence classification by MorphConv.ipynb\<close> is one
  linear script. Each cell is translated into a function of the values the cell reads.
  What the script leaves to chance or to an external collaborator is an explicit argument:
  the morphological analyser (\<open>morphs\<close>), the pretrained embedding (\<open>fasttext\<close>), the draw
  of the random number generator, the optimizer's update and the loss of a batch.
  Library calls (gluonnlp's \<open>Vocab\<close>, Keras' \<open>pad_sequences\<close>, numpy's \<open>choice\<close> and
  \<open>delete\<close>, the TensorFlow layers) are written out as their documented behaviour at the
  arguments the notebook passes.
\<close>

datatype error = ValueError | IndexError | ZeroDivisionError | OutOfRangeError

subsection \<open>Train and validation indices (cell 3)\<close>

text \<open>
  \<^verbatim>\<open>
  val_indices = np.random.choice(a = range(ratings.shape[0]),
                                 size = int(ratings.shape[0] * .2), replace = False)
  tr_indices = np.delete(arr = range(ratings.shape[0]), obj = val_indices, axis = 0)
  \<close>
  \<open>int(n * .2)\<close> truncates the double product of \<open>n\<close> and the double nearest to 0.2, which
  is \<open>(1 + 2\<^sup>-\<^sup>5\<^sup>4) / 5\<close>; for a row count below \<open>2\<^sup>5\<^sup>2\<close> the rounded product stays in
  \<open>[n div 5, n div 5 + 1)\<close>, so the size is \<open>n div 5\<close>.
\<close>

definition val_size :: "nat \<Rightarrow> nat" where
  "val_size n = n div 5"

text \<open>
  \<^verbatim>\<open>np.random.choice(a, size, replace=False)\<close> on a one-dimensional population without
  weights returns \<^verbatim>\<open>a[permutation(pop_size)[:size]]\<close>. The permutation is the generator's draw
  and an argument here; the population is \<open>range(n)\<close>, so the sample is the prefix itself.
  An empty population, or a sample larger than the population, is a ValueError.
\<close>

definition random_choice :: "nat list \<Rightarrow> nat \<Rightarrow> nat \<Rightarrow> error + nat list" where
  "random_choice permutation pop_size sz =
     (if pop_size = 0 then Inl ValueError
      else if pop_size < sz then Inl ValueError
      else Inr (take sz permutation))"

text \<open>
  \<^verbatim>\<open>np.delete(arr, obj, axis=0)\<close> with an array of indices: a mask of the positions to keep
  (\<^verbatim>\<open>keep[obj] = False\<close>), then \<^verbatim>\<open>arr[keep]\<close>; an index outside the array is an IndexError.
\<close>

definition np_delete :: "'a list \<Rightarrow> nat list \<Rightarrow> error + 'a list" where
  "np_delete arr obj =
     (if list_ex (\<lambda>i. length arr \<le> i) obj then Inl IndexError
      else Inr (map (\<lambda>i. arr ! i) (filter (\<lambda>i. i \<notin> set obj) [0..<length arr])))"

definition split_indices :: "nat list \<Rightarrow> nat \<Rightarrow> error + (nat list \<times> nat list)" where
  \<comment> \<open>the pair \<open>(val_indices, tr_indices)\<close> for a file of \<open>n\<close> rows\<close>
  "split_indices permutation n =
     (case random_choice permutation n (val_size n) of
        Inl e \<Rightarrow> Inl e
      | Inr val_indices \<Rightarrow>
          (case np_delete [0..<n] val_indices of
             Inl e \<Rightarrow> Inl e
           | Inr tr_indices \<Rightarrow> Inr (val_indices, tr_indices)))"


subsection \<open>Preprocessing: tokens, vocabulary, encoding (cells 5 to 8)\<close>

type_synonym token = string

text \<open>
  \<^verbatim>\<open>nlp.data.count_tokens(tokens)\<close> returns a \<open>Counter\<close>: a dictionary from token to its
  number of occurrences, filled one token at a time
  (\<^verbatim>\<open>self[elem] = self.get(elem, 0) + 1\<close>). The dictionary is an association list in
  insertion order.
\<close>

definition counter_get :: "(token \<times> nat) list \<Rightarrow> token \<Rightarrow> nat \<Rightarrow> nat" where
  "counter_get counter k d = (case map_of counter k of None \<Rightarrow> d | Some c \<Rightarrow> c)"

fun counter_update :: "(token \<times> nat) list \<Rightarrow> token list \<Rightarrow> (token \<times> nat) list" where
  "counter_update counter [] = counter"
| "counter_update counter (elem # rest) =
     counter_update (AList.update elem (counter_get counter elem 0 + 1) counter) rest"

definition count_tokens :: "token list \<Rightarrow> (token \<times> nat) list" where
  "count_tokens tokens = counter_update [] tokens"

text \<open>
  \<^verbatim>\<open>nlp.Vocab(counter, bos_token=None, eos_token=None, min_freq=15)\<close>. The unknown token
  \<^verbatim>\<open><unk>\<close> always takes index \<open>UNK_IDX = 0\<close>; the other special tokens follow, here only
  the padding token \<^verbatim>\<open><pad>\<close> at index 1. \<open>token_to_idx\<close> is a \<open>DefaultLookupDict\<close>: a
  dictionary whose \<^verbatim>\<open>__getitem__(k)\<close> is \<^verbatim>\<open>self.get(k, self._default)\<close> with default
  \<open>UNK_IDX\<close>. The embedding matrix \<open>idx_to_vec\<close> is attached by \<open>set_embedding\<close>.
\<close>

definition UNK_IDX :: nat where
  "UNK_IDX = 0"

definition unknown_token :: token where
  "unknown_token = ''<unk>''"

definition padding_token :: token where
  "padding_token = ''<pad>''"

record 'v Vocab =
  idx_to_token :: "token list"
  token_to_idx :: "token \<rightharpoonup> nat"
  reserved_tokens :: "token list"
  idx_to_vec :: "'v list option"

text \<open>\<^verbatim>\<open>vocab.token_to_idx[token]\<close>: the lookup with its default; the dictionary is only read.\<close>

definition token_to_idx_getitem :: "'v Vocab \<Rightarrow> token \<Rightarrow> nat" where
  "token_to_idx_getitem vocab k = (case token_to_idx vocab k of None \<Rightarrow> UNK_IDX | Some i \<Rightarrow> i)"

text \<open>
  \<^verbatim>\<open>_index_special_tokens\<close>: \<^verbatim>\<open>idx_to_token = [unknown_token] + special_tokens\<close>, and
  \<open>token_to_idx\<close> is updated with \<^verbatim>\<open>(token, idx) for idx, token in enumerate(idx_to_token)\<close>.
\<close>

fun dict_update :: "(token \<rightharpoonup> nat) \<Rightarrow> (token \<times> nat) list \<Rightarrow> (token \<rightharpoonup> nat)" where
  "dict_update d [] = d"
| "dict_update d ((k, v) # kvs) = dict_update (d(k \<mapsto> v)) kvs"

definition index_special_tokens :: "token list \<Rightarrow> token list \<times> (token \<rightharpoonup> nat)" where
  "index_special_tokens special_tokens =
     (let i2t = [unknown_token] @ special_tokens
      in (i2t, dict_update Map.empty (zip i2t [0..<length i2t])))"

text \<open>
  \<^verbatim>\<open>_index_counter_keys\<close>: the counter's items are sorted by token, then (stably) by
  decreasing frequency, and indexed in that order until the first frequency below
  \<open>min_freq\<close> or until the vocabulary holds \<open>token_cap\<close> tokens:
  \<^verbatim>\<open>
  for token, freq in token_freqs:
      if freq < min_freq or len(self._idx_to_token) == token_cap:
          break
      if token not in unknown_and_special_tokens:
          self._idx_to_token.append(token)
          self._token_to_idx[token] = len(self._idx_to_token) - 1
  \<close>
\<close>

definition token_freqs_of :: "(token \<times> nat) list \<Rightarrow> (token \<times> nat) list" where
  "token_freqs_of counter = sort_key (\<lambda>x. - int (snd x)) (sort_key fst counter)"

fun index_loop ::
  "(token \<times> nat) list \<Rightarrow> token list \<Rightarrow> nat \<Rightarrow> nat \<Rightarrow>
   token list \<times> (token \<rightharpoonup> nat) \<Rightarrow> token list \<times> (token \<rightharpoonup> nat)" where
  "index_loop [] specials token_cap min_freq st = st"
| "index_loop ((token, freq) # rest) specials token_cap min_freq (i2t, t2i) =
     (if freq < min_freq \<or> length i2t = token_cap then (i2t, t2i)
      else if token \<notin> set specials
        then index_loop rest specials token_cap min_freq
               (i2t @ [token], t2i(token \<mapsto> length (i2t @ [token]) - 1))
        else index_loop rest specials token_cap min_freq (i2t, t2i))"

definition index_counter_keys ::
  "(token \<times> nat) list \<Rightarrow> token list \<Rightarrow> nat \<Rightarrow>
   token list \<times> (token \<rightharpoonup> nat) \<Rightarrow> token list \<times> (token \<rightharpoonup> nat)" where
  "index_counter_keys counter special_tokens min_freq st =
     (let unknown_and_special_tokens = remdups (special_tokens @ [unknown_token]);
          token_cap = length unknown_and_special_tokens + length counter
      in index_loop (token_freqs_of counter) unknown_and_special_tokens token_cap min_freq st)"

definition Vocab_init :: "(token \<times> nat) list \<Rightarrow> nat \<Rightarrow> 'v Vocab" where
  "Vocab_init counter min_freq =
     (let special_tokens = [padding_token];
          st0 = index_special_tokens special_tokens;
          st = (if counter \<noteq> [] then index_counter_keys counter special_tokens min_freq st0
                else st0)
      in \<lparr> idx_to_token = fst st, token_to_idx = snd st,
           reserved_tokens = special_tokens, idx_to_vec = None \<rparr>)"

text \<open>
  \<^verbatim>\<open>vocab.set_embedding(fasttext_simple)\<close>: row \<open>i\<close> of the matrix is the pretrained vector
  of token \<open>i\<close>. The pretrained table is the function \<open>fasttext\<close> (it answers every token:
  one it does not hold gets its own unknown vector).
\<close>

definition set_embedding :: "(token \<Rightarrow> 'v) \<Rightarrow> 'v Vocab \<Rightarrow> 'v Vocab" where
  "set_embedding fasttext vocab = vocab\<lparr> idx_to_vec := Some (map fasttext (idx_to_token vocab)) \<rparr>"

text \<open>
  \<^verbatim>\<open>pad_sequences(sequences, maxlen, padding='post', value=1.)\<close> with the defaults
  \<^verbatim>\<open>dtype='int32', truncating='pre'\<close>: every row starts as \<open>maxlen\<close> copies of \<open>value\<close>; an
  empty sequence is skipped; otherwise \<^verbatim>\<open>trunc = s[-maxlen:]\<close> is written over the first
  \<open>len(trunc)\<close> positions (\<^verbatim>\<open>x[idx, :len(trunc)] = trunc\<close>), which numpy refuses with a
  ValueError when \<open>trunc\<close> is longer than the row.
\<close>

definition py_last_n :: "nat \<Rightarrow> 'a list \<Rightarrow> 'a list" where
  \<comment> \<open>Python's \<^verbatim>\<open>s[-n:]\<close>; \<^verbatim>\<open>s[-0:]\<close> is all of \<open>s\<close>.\<close>
  "py_last_n n s = (if n = 0 then s else drop (length s - n) s)"

definition pad_sequence :: "nat \<Rightarrow> int \<Rightarrow> int list \<Rightarrow> error + int list" where
  "pad_sequence maxlen v s =
     (let row = replicate maxlen v in
      if s = [] then Inr row
      else let trunc = py_last_n maxlen s in
        if length trunc \<le> maxlen then Inr (trunc @ drop (length trunc) row)
        else Inl ValueError)"

fun pad_sequences :: "int list list \<Rightarrow> nat \<Rightarrow> int \<Rightarrow> error + int list list" where
  "pad_sequences [] maxlen v = Inr []"
| "pad_sequences (s # sequences) maxlen v =
     (case pad_sequence maxlen v s of
        Inl e \<Rightarrow> Inl e
      | Inr row \<Rightarrow> (case pad_sequences sequences maxlen v of
                     Inl e \<Rightarrow> Inl e
                   | Inr rows \<Rightarrow> Inr (row # rows)))"

text \<open>
  Cell 8, for one split:
  \<^verbatim>\<open>X = list(map(lambda sen : [vocab.token_to_idx[token] for token in sen], X))\<close>, then
  \<^verbatim>\<open>pad_sequences(sequences = X, maxlen = 30, padding = 'post', value = 1.)\<close>.
\<close>

definition maxlen :: nat where
  "maxlen = 30"

definition pad_value :: int where
  "pad_value = 1"

definition to_indices :: "'v Vocab \<Rightarrow> token list \<Rightarrow> int list" where
  "to_indices vocab sen = map (\<lambda>token. int (token_to_idx_getitem vocab token)) sen"

definition encode_split :: "'v Vocab \<Rightarrow> token list list \<Rightarrow> error + int list list" where
  "encode_split vocab X = pad_sequences (map (to_indices vocab) X) maxlen pad_value"

text \<open>
  Cells 5 to 8 as one state transformer. The state holds what the later cells read: the
  vocabulary (with its embedding matrix) and the three encoded splits.
\<close>

record 'v preprocessed =
  vocab :: "'v Vocab"
  X_tr :: "int list list"
  X_val :: "int list list"
  X_tst :: "int list list"

definition build_vocab :: "(token \<Rightarrow> 'v) \<Rightarrow> token list list \<Rightarrow> 'v Vocab" where
  "build_vocab fasttext X_tr_tokens =
     set_embedding fasttext (Vocab_init (count_tokens (concat X_tr_tokens)) 15)"

definition final_preprocessing ::
  "'v Vocab \<Rightarrow> token list list \<Rightarrow> token list list \<Rightarrow> token list list \<Rightarrow>
   error + 'v preprocessed" where
  "final_preprocessing v tr val tst =
     (case encode_split v tr of Inl e \<Rightarrow> Inl e | Inr xtr \<Rightarrow>
      (case encode_split v val of Inl e \<Rightarrow> Inl e | Inr xval \<Rightarrow>
       (case encode_split v tst of Inl e \<Rightarrow> Inl e | Inr xtst \<Rightarrow>
          Inr \<lparr> vocab = v, X_tr = xtr, X_val = xval, X_tst = xtst \<rparr>)))"

definition preprocess ::
  "(string \<Rightarrow> token list) \<Rightarrow> (token \<Rightarrow> 'v) \<Rightarrow> string list \<Rightarrow> string list \<Rightarrow> string list \<Rightarrow>
   error + 'v preprocessed" where
  "preprocess morphs fasttext docs_tr docs_val docs_tst =
     (let tr = map morphs docs_tr; val = map morphs docs_val; tst = map morphs docs_tst
      in final_preprocessing (build_vocab fasttext tr) tr val tst)"

subsection \<open>Auxiliary definitions for the proofs about preprocessing\<close>

text \<open>
  The row that cell 8 writes for one tokenized review, in closed form; the invariant tying
  \<open>token_to_idx\<close> to \<open>idx_to_token\<close>; and the two tables of the vocabulary as the
  indexing loop leaves them.
\<close>

definition encode_row :: "'v Vocab \<Rightarrow> token list \<Rightarrow> int list" where
  "encode_row V sen =
     (if 30 < length sen then drop (length sen - 30) (to_indices V sen)
      else to_indices V sen @ replicate (30 - length sen) pad_value)"

definition vocab_inv :: "token list \<Rightarrow> (token \<rightharpoonup> nat) \<Rightarrow> bool" where
  "vocab_inv i2t t2i \<longleftrightarrow> (\<forall>t i. t2i t = Some i \<longrightarrow> i < length i2t \<and> i2t ! i = t)"

definition vocab_tables :: "(token \<times> nat) list \<Rightarrow> nat \<Rightarrow> token list \<times> (token \<rightharpoonup> nat)" where
  "vocab_tables counter mf =
     index_loop (token_freqs_of counter) (remdups [padding_token, unknown_token])
       (length (remdups [padding_token, unknown_token]) + length counter) mf
       ([unknown_token, padding_token], [unknown_token \<mapsto> 0, padding_token \<mapsto> 1])"


subsection \<open>The graph of \<open>MorphConv\<close> (cell 9)\<close>

text \<open>
  Tensors are nested lists, outermost axis first; a batch \<open>X\<close> of encoded reviews is a list
  of rows of ids. The scalars are the elements of an ordered field \<open>'a\<close>: the wiring of the
  graph, its shapes and what each step reads are those of the source, while the rounding
  of 32-bit floating point arithmetic is not modelled.

  The variables of the graph, by the scope that creates them: the two embedding tables of
  \<open>embedding_layer\<close>, kernel and bias of the three \<open>Conv1D\<close> layers of \<open>convoluion_layer\<close>,
  kernel and bias of the \<open>Dense\<close> layer of \<open>output_layer\<close>.
\<close>

record 'a variables =
  static_embed :: "'a list list"
  non_static_embed :: "'a list list"
  tri_gram_kernel :: "'a list list list"
  tri_gram_bias :: "'a list"
  tetra_gram_kernel :: "'a list list list"
  tetra_gram_bias :: "'a list"
  penta_gram_kernel :: "'a list list list"
  penta_gram_bias :: "'a list"
  dense_kernel :: "'a list list"
  dense_bias :: "'a list"

text \<open>\<^verbatim>\<open>tf.nn.embedding_lookup(params, ids)\<close>: row \<open>ids[b][t]\<close> of \<open>params\<close> at position \<open>[b][t]\<close>.\<close>

definition embedding_lookup :: "'a list list \<Rightarrow> int list list \<Rightarrow> 'a list list list" where
  "embedding_lookup params ids = map (map (\<lambda>i. params ! nat i)) ids"

definition static_batch :: "'a variables \<Rightarrow> int list list \<Rightarrow> 'a list list list" where
  "static_batch vars X = embedding_lookup (static_embed vars) X"

definition non_static_batch :: "'a variables \<Rightarrow> int list list \<Rightarrow> 'a list list list" where
  "non_static_batch vars X = embedding_lookup (non_static_embed vars) X"

text \<open>
  \<^verbatim>\<open>keras.layers.Conv1D(filters, kernel_size, activation = relu, padding = 'valid')\<close> on an
  input of shape \<open>[batch, steps, channels]\<close> with a kernel of shape
  \<open>[kernel_size, channels, filters]\<close>: for each of the \<open>steps - kernel_size + 1\<close> window
  positions \<open>t\<close> and each filter \<open>c\<close>, the sum over the window of input times kernel, plus
  the bias, through the activation.
\<close>

definition relu :: "'a::linordered_field \<Rightarrow> 'a" where
  "relu x = max 0 x"

definition conv_window ::
  "nat \<Rightarrow> 'a::linordered_field list list list \<Rightarrow> 'a list \<Rightarrow> 'a list list \<Rightarrow> nat \<Rightarrow> nat \<Rightarrow> 'a" where
  "conv_window kernel_size kern bias x t c =
     sum_list (map (\<lambda>j. sum_list (map (\<lambda>(v, w). v * w ! c) (zip (x ! (t + j)) (kern ! j))))
                 [0..<kernel_size])
     + bias ! c"

definition Conv1D ::
  "nat \<Rightarrow> nat \<Rightarrow> 'a::linordered_field list list list \<Rightarrow> 'a list \<Rightarrow> 'a list list list \<Rightarrow>
   'a list list list" where
  "Conv1D filters kernel_size kern bias inputs =
     map (\<lambda>x. map (\<lambda>t. map (\<lambda>c. relu (conv_window kernel_size kern bias x t c)) [0..<filters])
                 [0..<length x + 1 - kernel_size])
         inputs"

definition tri_gram :: "'a::linordered_field variables \<Rightarrow> 'a list list list \<Rightarrow> 'a list list list" where
  "tri_gram vars = Conv1D 100 3 (tri_gram_kernel vars) (tri_gram_bias vars)"

definition tetra_gram :: "'a::linordered_field variables \<Rightarrow> 'a list list list \<Rightarrow> 'a list list list" where
  "tetra_gram vars = Conv1D 100 4 (tetra_gram_kernel vars) (tetra_gram_bias vars)"

definition penta_gram :: "'a::linordered_field variables \<Rightarrow> 'a list list list \<Rightarrow> 'a list list list" where
  "penta_gram vars = Conv1D 100 5 (penta_gram_kernel vars) (penta_gram_bias vars)"

text \<open>
  \<^verbatim>\<open>fmap_3 = tf.reduce_max(static_3 + non_static_3, axis = 1)\<close>: the elementwise sum of two
  tensors of one shape, then for each review and each filter the maximum over the window
  positions.
\<close>

definition tensor_add ::
  "'a::linordered_field list list list \<Rightarrow> 'a list list list \<Rightarrow> 'a list list list" where
  "tensor_add a b = map2 (map2 (map2 (+))) a b"

fun reduce_max_rows :: "'a::linordered_field list list \<Rightarrow> 'a list" where
  "reduce_max_rows [] = []"
| "reduce_max_rows (r # rs) = foldl (map2 max) r rs"

definition reduce_max_axis1 :: "'a::linordered_field list list list \<Rightarrow> 'a list list" where
  "reduce_max_axis1 a = map reduce_max_rows a"

definition fmap_3 :: "'a::linordered_field variables \<Rightarrow> int list list \<Rightarrow> 'a list list" where
  "fmap_3 vars X =
     reduce_max_axis1 (tensor_add (tri_gram vars (static_batch vars X))
                                  (tri_gram vars (non_static_batch vars X)))"

definition fmap_4 :: "'a::linordered_field variables \<Rightarrow> int list list \<Rightarrow> 'a list list" where
  "fmap_4 vars X =
     reduce_max_axis1 (tensor_add (tetra_gram vars (static_batch vars X))
                                  (tetra_gram vars (non_static_batch vars X)))"

definition fmap_5 :: "'a::linordered_field variables \<Rightarrow> int list list \<Rightarrow> 'a list list" where
  "fmap_5 vars X =
     reduce_max_axis1 (tensor_add (penta_gram vars (static_batch vars X))
                                  (penta_gram vars (non_static_batch vars X)))"

text \<open>\<^verbatim>\<open>flattened = tf.concat([fmap_3, fmap_4, fmap_5], axis = -1)\<close>, review by review.\<close>

definition concat_last :: "'a list list \<Rightarrow> 'a list list \<Rightarrow> 'a list list \<Rightarrow> 'a list list" where
  "concat_last a b c = map (\<lambda>(u, v, w). u @ v @ w) (zip a (zip b c))"

definition flattened :: "'a::linordered_field variables \<Rightarrow> int list list \<Rightarrow> 'a list list" where
  "flattened vars X = concat_last (fmap_3 vars X) (fmap_4 vars X) (fmap_5 vars X)"

text \<open>
  \<^verbatim>\<open>keras.layers.Dense(units = n_of_classes, ...)(flattened)\<close> with \<open>n_of_classes = 2\<close> (cell
  14), then \<^verbatim>\<open>keras.layers.Dropout(rate = .5)(score, training = self.is_training)\<close>. In
  training mode the layer returns \<^verbatim>\<open>tf.nn.dropout(score, keep_prob = 1 - rate)\<close>, that is
  \<open>score / keep_prob * binary_tensor\<close> with a random tensor of zeros and ones; otherwise it
  returns its input. The random tensor is an argument.
\<close>

definition n_of_classes :: nat where
  "n_of_classes = 2"

definition Dense :: "nat \<Rightarrow> 'a::linordered_field list list \<Rightarrow> 'a list \<Rightarrow> 'a list list \<Rightarrow> 'a list list" where
  "Dense units kern bias inputs =
     map (\<lambda>x. map (\<lambda>k. sum_list (map (\<lambda>(v, w). v * w ! k) (zip x kern)) + bias ! k) [0..<units])
         inputs"

definition Dropout ::
  "'a::linordered_field \<Rightarrow> 'a list list \<Rightarrow> bool \<Rightarrow> 'a list list \<Rightarrow> 'a list list" where
  "Dropout rate inputs training binary_tensor =
     (if training
      then map2 (map2 (\<lambda>v b. v / (1 - rate) * b)) inputs binary_tensor
      else inputs)"

definition dense_output :: "'a::linordered_field variables \<Rightarrow> int list list \<Rightarrow> 'a list list" where
  "dense_output vars X = Dense n_of_classes (dense_kernel vars) (dense_bias vars) (flattened vars X)"

definition score ::
  "'a::linordered_field variables \<Rightarrow> int list list \<Rightarrow> bool \<Rightarrow> 'a list list \<Rightarrow> 'a list list" where
  "score vars X is_training binary_tensor =
     Dropout (1 / 2) (dense_output vars X) is_training binary_tensor"

text \<open>\<^verbatim>\<open>self.prediction = tf.argmax(self.__score, axis = -1)\<close>: the first index of the largest entry.\<close>

fun argmax_from :: "'a::linordered_field \<Rightarrow> nat \<Rightarrow> nat \<Rightarrow> 'a list \<Rightarrow> nat" where
  "argmax_from best best_i i [] = best_i"
| "argmax_from best best_i i (x # xs) =
     (if best < x then argmax_from x i (Suc i) xs else argmax_from best best_i (Suc i) xs)"

definition argmax :: "'a::linordered_field list \<Rightarrow> nat" where
  "argmax xs = (case xs of [] \<Rightarrow> 0 | x # rest \<Rightarrow> argmax_from x 0 1 rest)"

definition prediction ::
  "'a::linordered_field variables \<Rightarrow> int list list \<Rightarrow> bool \<Rightarrow> 'a list list \<Rightarrow> nat list" where
  "prediction vars X is_training binary_tensor = map argmax (score vars X is_training binary_tensor)"


subsection \<open>A small set of variables for running the graph\<close>

text \<open>
  Embedding vectors of one dimension for a vocabulary of three tokens, every filter weight
  1 and every bias 0, a dense layer that sums the features into the first class.
\<close>

definition example_variables :: "rat variables" where
  "example_variables =
     \<lparr> static_embed = [[0], [1], [2]],
       non_static_embed = [[0], [1], [2]],
       tri_gram_kernel = replicate 3 [replicate 100 1],
       tri_gram_bias = replicate 100 0,
       tetra_gram_kernel = replicate 4 [replicate 100 1],
       tetra_gram_bias = replicate 100 0,
       penta_gram_kernel = replicate 5 [replicate 100 1],
       penta_gram_bias = replicate 100 0,
       dense_kernel = replicate 300 [1, 0],
       dense_bias = [0, 0] \<rparr>"

definition example_batch :: "int list list" where
  "example_batch = [2 # 0 # replicate 28 1]"


subsection \<open>The convolution stage in the words of the specification\<close>

text \<open>
  For one review, with \<open>s\<close> and \<open>n\<close> its rows of the frozen and of the trainable table: the
  outputs of one filter bank on both, summed, at window position \<open>t\<close> and filter \<open>c\<close>; and
  the feature vector of the bank, the maximum of that sum over all window positions, filter
  by filter.
\<close>

definition summed_conv ::
  "nat \<Rightarrow> 'a::linordered_field list list list \<Rightarrow> 'a list \<Rightarrow> 'a list list \<Rightarrow> 'a list list \<Rightarrow>
   nat \<Rightarrow> nat \<Rightarrow> 'a" where
  "summed_conv k kern bias s n t c =
     relu (conv_window k kern bias s t c) + relu (conv_window k kern bias n t c)"

definition max_over_time ::
  "nat \<Rightarrow> nat \<Rightarrow> 'a::linordered_field list list list \<Rightarrow> 'a list \<Rightarrow> 'a list list \<Rightarrow> 'a list list \<Rightarrow>
   'a list" where
  "max_over_time filters k kern bias s n =
     map (\<lambda>c. Max ((\<lambda>t. summed_conv k kern bias s n t c) ` {0..<length s + 1 - k})) [0..<filters]"


subsection \<open>Variables, collections and the training operation (cells 9, 14 and 15)\<close>

text \<open>
  Every variable of the graph with the \<open>trainable\<close> flag it is created with:
  \<^verbatim>\<open>tf.get_variable(name = 'static', initializer = embedding, trainable = False)\<close>,
  \<^verbatim>\<open>tf.get_variable(name = 'non_static', initializer = embedding, trainable = True)\<close>, and
  the weights of the Keras layers, which are trainable. A variable enters the collection
  \<open>TRAINABLE_VARIABLES\<close> when its flag is true.
\<close>

datatype var_name =
  Static | Non_static
  | Tri_gram_kernel | Tri_gram_bias
  | Tetra_gram_kernel | Tetra_gram_bias
  | Penta_gram_kernel | Penta_gram_bias
  | Dense_kernel | Dense_bias

definition declared_variables :: "(var_name \<times> bool) list" where
  "declared_variables =
     [(Static, False), (Non_static, True),
      (Tri_gram_kernel, True), (Tri_gram_bias, True),
      (Tetra_gram_kernel, True), (Tetra_gram_bias, True),
      (Penta_gram_kernel, True), (Penta_gram_bias, True),
      (Dense_kernel, True), (Dense_bias, True)]"

definition trainable_variables :: "var_name list" where
  "trainable_variables = map fst (filter snd declared_variables)"

text \<open>
  \<^verbatim>\<open>sess.run(tf.global_variables_initializer())\<close>: each variable takes the value of its
  initializer. Both embedding tables take \<open>embedding\<close>
  (\<^verbatim>\<open>vocab.embedding.idx_to_vec.asnumpy()\<close>, cell 14); the kernels take the draw of their
  random initializer, an argument here; the biases are zero.
\<close>

record 'a initial_draw =
  tri_gram_draw :: "'a list list list"
  tetra_gram_draw :: "'a list list list"
  penta_gram_draw :: "'a list list list"
  dense_draw :: "'a list list"

definition global_variables_initializer ::
  "'a::linordered_field list list \<Rightarrow> 'a initial_draw \<Rightarrow> 'a variables" where
  "global_variables_initializer embedding draw =
     \<lparr> static_embed = embedding,
       non_static_embed = embedding,
       tri_gram_kernel = tri_gram_draw draw,
       tri_gram_bias = replicate 100 0,
       tetra_gram_kernel = tetra_gram_draw draw,
       tetra_gram_bias = replicate 100 0,
       penta_gram_kernel = penta_gram_draw draw,
       penta_gram_bias = replicate 100 0,
       dense_kernel = dense_draw draw,
       dense_bias = replicate n_of_classes 0 \<rparr>"

text \<open>
  \<^verbatim>\<open>training_op = opt.minimize(loss = morph_conv.total_loss)\<close> with no \<open>var_list\<close>: Adam
  computes a new value for each variable of \<open>TRAINABLE_VARIABLES\<close> and assigns it. The new
  values (a function of the gradients and of the optimizer's slots) are the argument
  \<open>updated\<close>; \<open>assign\<close> writes one variable.
\<close>

fun assign :: "var_name \<Rightarrow> 'a variables \<Rightarrow> 'a variables \<Rightarrow> 'a variables" where
  "assign Static updated vars = vars\<lparr> static_embed := static_embed updated \<rparr>"
| "assign Non_static updated vars = vars\<lparr> non_static_embed := non_static_embed updated \<rparr>"
| "assign Tri_gram_kernel updated vars = vars\<lparr> tri_gram_kernel := tri_gram_kernel updated \<rparr>"
| "assign Tri_gram_bias updated vars = vars\<lparr> tri_gram_bias := tri_gram_bias updated \<rparr>"
| "assign Tetra_gram_kernel updated vars = vars\<lparr> tetra_gram_kernel := tetra_gram_kernel updated \<rparr>"
| "assign Tetra_gram_bias updated vars = vars\<lparr> tetra_gram_bias := tetra_gram_bias updated \<rparr>"
| "assign Penta_gram_kernel updated vars = vars\<lparr> penta_gram_kernel := penta_gram_kernel updated \<rparr>"
| "assign Penta_gram_bias updated vars = vars\<lparr> penta_gram_bias := penta_gram_bias updated \<rparr>"
| "assign Dense_kernel updated vars = vars\<lparr> dense_kernel := dense_kernel updated \<rparr>"
| "assign Dense_bias updated vars = vars\<lparr> dense_bias := dense_bias updated \<rparr>"

definition apply_gradients :: "var_name list \<Rightarrow> 'a variables \<Rightarrow> 'a variables \<Rightarrow> 'a variables" where
  "apply_gradients var_list updated vars = foldl (\<lambda>v name. assign name updated v) vars var_list"

subsection \<open>Datasets, iterators and the session (cells 10 to 13 and 16)\<close>

text \<open>
  An example is an encoded review with its label. \<^verbatim>\<open>Dataset.batch(batch_size)\<close> cuts the
  examples into consecutive batches of \<open>batch_size\<close>, the last one possibly smaller.
\<close>

type_synonym example = "int list \<times> int"
type_synonym batch = "example list"

definition batch_size :: nat where
  "batch_size = 100"

function batch_dataset :: "nat \<Rightarrow> 'e list \<Rightarrow> 'e list list" where
  "batch_dataset n xs =
     (if n = 0 \<or> xs = [] then [] else take n xs # batch_dataset n (drop n xs))"
  by pat_completeness auto
termination
  by (relation "measure (\<lambda>(n, xs). length xs)") auto

text \<open>
  What the session holds between two calls of \<open>sess.run\<close>: the variables, the batches each
  initializable iterator has still to deliver, and the rest of the framework's state
  (the optimizer's slots, the random generator), of an abstract type \<open>'f\<close>.

  What TensorFlow computes is given by a \<open>backend\<close>: the order in which
  \<^verbatim>\<open>shuffle(buffer_size = 1000000)\<close> delivers the training examples; for the fetches
  \<^verbatim>\<open>[training_op, morph_conv.total_loss]\<close> in training mode, the values Adam computes for
  the variables and the loss of the batch; for the fetch \<^verbatim>\<open>morph_conv.total_loss\<close> with
  \<open>is_training\<close> false, the loss of the batch.
\<close>

record ('a, 'f) session =
  variables :: "'a variables"
  framework :: 'f
  tr_iterator :: "batch list"
  val_iterator :: "batch list"

record ('a, 'f) backend =
  shuffle :: "'f \<Rightarrow> example list \<Rightarrow> 'f \<times> example list"
  train_run :: "'f \<Rightarrow> 'a variables \<Rightarrow> batch \<Rightarrow> 'f \<times> 'a variables \<times> 'a"
  loss_run :: "'a variables \<Rightarrow> batch \<Rightarrow> 'a"

text \<open>\<^verbatim>\<open>sess.run(tr_iterator.initializer)\<close> and \<^verbatim>\<open>sess.run(val_iterator.initializer)\<close>.\<close>

definition tr_iterator_initializer ::
  "('a, 'f) backend \<Rightarrow> example list \<Rightarrow> ('a, 'f) session \<Rightarrow> ('a, 'f) session" where
  "tr_iterator_initializer be tr_dataset st =
     (case shuffle be (framework st) tr_dataset of
        (f, shuffled) \<Rightarrow> st\<lparr> framework := f, tr_iterator := batch_dataset batch_size shuffled \<rparr>)"

definition val_iterator_initializer ::
  "example list \<Rightarrow> ('a, 'f) session \<Rightarrow> ('a, 'f) session" where
  "val_iterator_initializer val_dataset st =
     st\<lparr> val_iterator := batch_dataset batch_size val_dataset \<rparr>"

text \<open>
  One \<open>sess.run\<close> with the training handle, and one with the validation handle:
  \<open>iterator.get_next()\<close> delivers the next batch of the selected iterator, or raises
  \<open>OutOfRangeError\<close> when none is left, and then nothing else happens.
\<close>

definition sess_run_training_op ::
  "('a, 'f) backend \<Rightarrow> ('a, 'f) session \<Rightarrow> error + (('a, 'f) session \<times> 'a)" where
  "sess_run_training_op be st =
     (case tr_iterator st of
        [] \<Rightarrow> Inl OutOfRangeError
      | b # rest \<Rightarrow>
          (case train_run be (framework st) (variables st) b of
             (f, updated, tr_loss) \<Rightarrow>
               Inr (st\<lparr> variables := apply_gradients trainable_variables updated (variables st),
                        framework := f, tr_iterator := rest \<rparr>, tr_loss)))"

definition sess_run_total_loss ::
  "('a, 'f) backend \<Rightarrow> ('a, 'f) session \<Rightarrow> error + (('a, 'f) session \<times> 'a)" where
  "sess_run_total_loss be st =
     (case val_iterator st of
        [] \<Rightarrow> Inl OutOfRangeError
      | b # rest \<Rightarrow> Inr (st\<lparr> val_iterator := rest \<rparr>, loss_run be (variables st) b))"

subsection \<open>The training loop (cell 17)\<close>

text \<open>
  \<^verbatim>\<open>
  try:
      while True:
          _, tr_loss = sess.run(fetches = [training_op, morph_conv.total_loss], ...)
          avg_tr_loss += tr_loss
          tr_step += 1
  except tf.errors.OutOfRangeError:
      pass
  \<close>
  The loop has no exit of its own: it ends when \<open>sess.run\<close> raises. \<open>OutOfRangeError\<close> is
  caught; any other error leaves the cell.
\<close>

function train_loop ::
  "('a::linordered_field, 'f) backend \<Rightarrow> ('a, 'f) session \<Rightarrow> 'a \<Rightarrow> nat \<Rightarrow>
   error + (('a, 'f) session \<times> 'a \<times> nat)" where
  "train_loop be st avg_tr_loss tr_step =
     (case sess_run_training_op be st of
        Inl e \<Rightarrow> (if e = OutOfRangeError then Inr (st, avg_tr_loss, tr_step) else Inl e)
      | Inr (st', tr_loss) \<Rightarrow> train_loop be st' (avg_tr_loss + tr_loss) (tr_step + 1))"
  by pat_completeness auto
termination
  by (relation "measure (\<lambda>(be, st, avg, n). length (tr_iterator st))")
     (auto simp: sess_run_training_op_def split: list.splits prod.splits)

function val_loop ::
  "('a::linordered_field, 'f) backend \<Rightarrow> ('a, 'f) session \<Rightarrow> 'a \<Rightarrow> nat \<Rightarrow>
   error + (('a, 'f) session \<times> 'a \<times> nat)" where
  "val_loop be st avg_val_loss val_step =
     (case sess_run_total_loss be st of
        Inl e \<Rightarrow> (if e = OutOfRangeError then Inr (st, avg_val_loss, val_step) else Inl e)
      | Inr (st', val_loss) \<Rightarrow> val_loop be st' (avg_val_loss + val_loss) (val_step + 1))"
  by pat_completeness auto
termination
  by (relation "measure (\<lambda>(be, st, avg, n). length (val_iterator st))")
     (auto simp: sess_run_total_loss_def split: list.splits)

text \<open>
  One pass of the body of \<^verbatim>\<open>for epoch in tqdm(range(epochs))\<close>: both loops, then
  \<^verbatim>\<open>avg_tr_loss /= tr_step\<close> and \<^verbatim>\<open>avg_val_loss /= val_step\<close>, where Python raises
  ZeroDivisionError when the step count is 0. The result is the session and the two
  losses that the cell appends to its histories and prints.
\<close>

definition run_epoch ::
  "('a::linordered_field, 'f) backend \<Rightarrow> example list \<Rightarrow> example list \<Rightarrow> ('a, 'f) session \<Rightarrow>
   error + (('a, 'f) session \<times> 'a \<times> 'a)" where
  "run_epoch be tr_dataset val_dataset st =
     (case train_loop be (tr_iterator_initializer be tr_dataset st) 0 0 of
        Inl e \<Rightarrow> Inl e
      | Inr (st2, avg_tr_loss, tr_step) \<Rightarrow>
          (case val_loop be (val_iterator_initializer val_dataset st2) 0 0 of
             Inl e \<Rightarrow> Inl e
           | Inr (st4, avg_val_loss, val_step) \<Rightarrow>
               if tr_step = 0 then Inl ZeroDivisionError
               else if val_step = 0 then Inl ZeroDivisionError
               else Inr (st4, avg_tr_loss / of_nat tr_step, avg_val_loss / of_nat val_step)))"

definition epochs :: nat where
  "epochs = 5"

fun training ::
  "('a::linordered_field, 'f) backend \<Rightarrow> example list \<Rightarrow> example list \<Rightarrow> nat \<Rightarrow>
   ('a, 'f) session \<Rightarrow> 'a list \<Rightarrow> 'a list \<Rightarrow> error + (('a, 'f) session \<times> 'a list \<times> 'a list)" where
  "training be tr_dataset val_dataset 0 st tr_loss_hist val_loss_hist =
     Inr (st, tr_loss_hist, val_loss_hist)"
| "training be tr_dataset val_dataset (Suc k) st tr_loss_hist val_loss_hist =
     (case run_epoch be tr_dataset val_dataset st of
        Inl e \<Rightarrow> Inl e
      | Inr (st', avg_tr_loss, avg_val_loss) \<Rightarrow>
          training be tr_dataset val_dataset k st'
            (tr_loss_hist @ [avg_tr_loss]) (val_loss_hist @ [avg_val_loss]))"

definition run_training ::
  "('a::linordered_field, 'f) backend \<Rightarrow> 'a list list \<Rightarrow> 'a initial_draw \<Rightarrow> 'f \<Rightarrow>
   example list \<Rightarrow> example list \<Rightarrow> error + (('a, 'f) session \<times> 'a list \<times> 'a list)" where
  "run_training be embedding draw f0 tr_dataset val_dataset =
     training be tr_dataset val_dataset epochs
       \<lparr> variables = global_variables_initializer embedding draw, framework = f0,
         tr_iterator = [], val_iterator = [] \<rparr> [] []"


subsection \<open>A small backend for running the training loop\<close>

text \<open>
  A backend whose shuffle reverses the examples, whose loss of a batch is the number of its
  examples, and whose optimizer proposes the same new value for every variable, the frozen
  table included; a session and two datasets of 250 and 120 examples.
\<close>

definition example_updated :: "rat variables" where
  "example_updated =
     \<lparr> static_embed = [[7]], non_static_embed = [[7]],
       tri_gram_kernel = [], tri_gram_bias = [],
       tetra_gram_kernel = [], tetra_gram_bias = [],
       penta_gram_kernel = [], penta_gram_bias = [],
       dense_kernel = [], dense_bias = [] \<rparr>"

definition example_backend :: "(rat, nat) backend" where
  "example_backend =
     \<lparr> shuffle = (\<lambda>f xs. (Suc f, rev xs)),
       train_run = (\<lambda>f vars b. (f, example_updated, of_nat (length b))),
       loss_run = (\<lambda>vars b. of_nat (length b)) \<rparr>"

definition example_draw :: "rat initial_draw" where
  "example_draw =
     \<lparr> tri_gram_draw = [], tetra_gram_draw = [], penta_gram_draw = [], dense_draw = [] \<rparr>"

definition example_session :: "(rat, nat) session" where
  "example_session =
     \<lparr> variables = global_variables_initializer [[1], [2]] example_draw, framework = 0,
       tr_iterator = [], val_iterator = [] \<rparr>"

definition example_tr_dataset :: "example list" where
  "example_tr_dataset = replicate 250 ([], 0)"

definition example_val_dataset :: "example list" where
  "example_val_dataset = replicate 120 ([], 1)"


subsection \<open>The losses of the batches of one phase\<close>

text \<open>
  The list of the per-batch losses a phase sees, from a session whose iterator has just
  been initialized: the loss of each \<open>sess.run\<close> that delivers a batch, in order, each
  computed in the session the previous runs have left.
\<close>

function tr_losses :: "('a, 'f) backend \<Rightarrow> ('a, 'f) session \<Rightarrow> 'a list" where
  "tr_losses be st =
     (case sess_run_training_op be st of
        Inl e \<Rightarrow> []
      | Inr (st', tr_loss) \<Rightarrow> tr_loss # tr_losses be st')"
  by pat_completeness auto
termination
  by (relation "measure (\<lambda>(be, st). length (tr_iterator st))")
     (auto simp: sess_run_training_op_def split: list.splits prod.splits)

function val_losses :: "('a, 'f) backend \<Rightarrow> ('a, 'f) session \<Rightarrow> 'a list" where
  "val_losses be st =
     (case sess_run_total_loss be st of
        Inl e \<Rightarrow> []
      | Inr (st', val_loss) \<Rightarrow> val_loss # val_losses be st')"
  by pat_completeness auto
termination
  by (relation "measure (\<lambda>(be, st). length (val_iterator st))")
     (auto simp: sess_run_total_loss_def split: list.splits)


section \<open>Properties of the train/validation split\<close>

lemma np_delete_range:
  assumes "set obj \<subseteq> {0..<n}"
  shows "np_delete [0..<n] obj = Inr (filter (\<lambda>i. i \<notin> set obj) [0..<n])"
proof -
  have "\<not> list_ex (\<lambda>i. length [0..<n] \<le> i) obj"
    using assms by (auto simp: list_ex_iff)
  moreover have "map (\<lambda>i. [0..<n] ! i) (filter (\<lambda>i. i \<notin> set obj) [0..<n])
      = filter (\<lambda>i. i \<notin> set obj) [0..<n]"
    by (rule map_idI) simp
  ultimately show ?thesis
    by (simp add: np_delete_def)
qed

lemma permutation_facts:
  assumes "mset permutation = mset [0..<n]"
  shows "distinct permutation" "set permutation = {0..<n}" "length permutation = n"
proof -
  show "distinct permutation"
    using assms mset_eq_imp_distinct_iff [of permutation "[0..<n]"] by simp
  show "set permutation = {0..<n}"
    using assms mset_eq_setD [of permutation "[0..<n]"] by simp
  show "length permutation = n"
    using assms mset_eq_length [of permutation "[0..<n]"] by simp
qed

lemma complement_length:
  assumes "distinct val" and "set val \<subseteq> {0..<n}"
  shows "length (filter (\<lambda>i. i \<notin> set val) [0..<n]) + length val = n"
proof -
  have "length (filter (\<lambda>i. i \<in> set val) [0..<n]) = card ({i. i \<in> set val} \<inter> set [0..<n])"
    by (rule distinct_length_filter) simp
  also have "{i. i \<in> set val} \<inter> set [0..<n] = set val"
    using assms(2) by auto
  also have "card (set val) = length val"
    using assms(1) by (rule distinct_card)
  finally have "length (filter (\<lambda>i. i \<in> set val) [0..<n]) = length val" .
  moreover have "length (filter (\<lambda>i. i \<in> set val) [0..<n])
      + length (filter (\<lambda>i. \<not> i \<in> set val) [0..<n]) = length [0..<n]"
    by (rule sum_length_filter_compl)
  ultimately show ?thesis by simp
qed

subsection \<open>The two index sets partition the rows of the training file\<close>

text \<open>
  Claim C9. For a training file of \<open>n\<close> rows (at least one, and fewer than \<open>2\<^sup>5\<^sup>2\<close>) and any
  draw of the generator's permutation of \<open>range(n)\<close>, the split succeeds; the validation
  indices are \<open>n div 5\<close> (the floor of \<open>0.2 n\<close>) distinct row indices, the training indices
  are exactly the other row indices, in increasing order and without repetition; the two
  sets are disjoint, together they are all rows, and the two sizes add up to \<open>n\<close>.
\<close>

theorem split_indices_partition:
  assumes "mset permutation = mset [0..<n]" and "0 < n" and "n < 2 ^ 52"
  shows "\<exists>val_indices tr_indices.
      split_indices permutation n = Inr (val_indices, tr_indices)
    \<and> length val_indices = n div 5
    \<and> distinct val_indices
    \<and> distinct tr_indices
    \<and> tr_indices = filter (\<lambda>i. i \<notin> set val_indices) [0..<n]
    \<and> set tr_indices = {0..<n} - set val_indices
    \<and> set val_indices \<inter> set tr_indices = {}
    \<and> set val_indices \<union> set tr_indices = {0..<n}
    \<and> length tr_indices + length val_indices = n"
proof -
  let ?val = "take (n div 5) permutation"
  let ?tr = "filter (\<lambda>i. i \<notin> set ?val) [0..<n]"
  note p = permutation_facts [OF assms(1)]
  have sub: "set ?val \<subseteq> {0..<n}"
    using p(2) set_take_subset [of "n div 5" permutation] by blast
  have dv: "distinct ?val"
    using p(1) by simp
  have choice: "random_choice permutation n (val_size n) = Inr ?val"
    using assms(2) by (simp add: random_choice_def val_size_def)
  have run: "split_indices permutation n = Inr (?val, ?tr)"
    by (simp add: split_indices_def choice np_delete_range [OF sub])
  have len: "length ?val = n div 5"
    using p(3) by simp
  have sum: "length ?tr + length ?val = n"
    using complement_length [OF dv sub] .
  have sets: "set ?tr = {0..<n} - set ?val" "set ?val \<inter> set ?tr = {}"
    "set ?val \<union> set ?tr = {0..<n}"
    using sub by auto
  show ?thesis
    using run len dv sum sets by (intro exI [of _ ?val] exI [of _ ?tr]) simp
qed

theorem split_indices_partition_witness:
  "mset [3, 1, 4, 0, 5, 9, 2, 6, 8, 7] = mset [0..<10] \<and> (0::nat) < 10 \<and> (10::nat) < 2 ^ 52
   \<and> split_indices [3, 1, 4, 0, 5, 9, 2, 6, 8, 7] 10 = Inr ([3, 1], [0, 2, 4, 5, 6, 7, 8, 9])"
proof -
  have h: "mset [3, 1, 4, 0, 5, 9, 2, 6, 8, 7] = mset [0..<10]"
    by code_simp
  have r: "split_indices [3, 1, 4, 0, 5, 9, 2, 6, 8, 7] 10 = Inr ([3, 1], [0, 2, 4, 5, 6, 7, 8, 9])"
    by code_simp
  show ?thesis
    using split_indices_partition [OF h, of ] h r by simp
qed

section \<open>Properties of the preprocessing\<close>

lemma pad_sequence_pos:
  "0 < m \<Longrightarrow> pad_sequence m v s =
     Inr (if m < length s then drop (length s - m) s else s @ replicate (m - length s) v)"
  by (auto simp: pad_sequence_def py_last_n_def Let_def)

lemma pad_sequences_pos:
  "0 < m \<Longrightarrow> pad_sequences ss m v =
     Inr (map (\<lambda>s. if m < length s then drop (length s - m) s
                     else s @ replicate (m - length s) v) ss)"
  by (induction ss) (simp_all add: pad_sequence_pos)

lemma encode_split_rows:
  "encode_split V X = Inr (map (encode_row V) X)"
  by (simp add: encode_split_def maxlen_def pad_sequences_pos to_indices_def o_def drop_map
      encode_row_def)

lemma vocab_inv_special: "vocab_inv (fst (index_special_tokens [padding_token])) (snd (index_special_tokens [padding_token]))"
  by (simp add: index_special_tokens_def vocab_inv_def upt_rec unknown_token_def padding_token_def)

lemma vocab_inv_index_loop:
  "vocab_inv i2t t2i \<Longrightarrow> index_loop xs sp cap mf (i2t, t2i) = (i2t', t2i') \<Longrightarrow> vocab_inv i2t' t2i'"
proof (induction xs sp cap mf "(i2t, t2i)" arbitrary: i2t t2i rule: index_loop.induct)
  case (1 sp cap mf)
  then show ?case by simp
next
  case (2 token freq rest sp cap mf i2t t2i)
  have step: "vocab_inv (i2t @ [token]) (t2i(token \<mapsto> length (i2t @ [token]) - 1))"
    unfolding vocab_inv_def
  proof (intro allI impI)
    fix t i
    assume h: "(t2i(token \<mapsto> length (i2t @ [token]) - 1)) t = Some i"
    show "i < length (i2t @ [token]) \<and> (i2t @ [token]) ! i = t"
    proof (cases "t = token")
      case True
      with h show ?thesis by auto
    next
      case False
      with h have "t2i t = Some i" by simp
      with "2.prems"(1) have "i < length i2t \<and> i2t ! i = t"
        by (simp add: vocab_inv_def)
      then show ?thesis by (simp add: nth_append)
    qed
  qed
  show ?case
    using 2 step by (auto split: if_splits)
qed


lemma index_loop_prefix:
  "\<exists>ys. fst (index_loop xs sp cap mf (i2t, t2i)) = i2t @ ys"
  by (induction xs sp cap mf "(i2t, t2i)" arbitrary: i2t t2i rule: index_loop.induct) auto

lemma index_loop_specials:
  "t \<in> set sp \<Longrightarrow> snd (index_loop xs sp cap mf (i2t, t2i)) t = t2i t"
  by (induction xs sp cap mf "(i2t, t2i)" arbitrary: i2t t2i rule: index_loop.induct) auto

lemma index_special_tokens_pad:
  "index_special_tokens [padding_token] =
     ([unknown_token, padding_token], [unknown_token \<mapsto> 0, padding_token \<mapsto> 1])"
  by (simp add: index_special_tokens_def upt_rec)

lemma unknown_neq_padding: "unknown_token \<noteq> padding_token"
  by (simp add: unknown_token_def padding_token_def)

lemma Vocab_init_tables:
  "idx_to_token (Vocab_init counter mf) = fst (vocab_tables counter mf)"
  "token_to_idx (Vocab_init counter mf) = snd (vocab_tables counter mf)"
  "idx_to_vec (Vocab_init counter mf) = None"
  by (cases "counter = []";
      simp add: Vocab_init_def Let_def index_special_tokens_pad index_counter_keys_def
        vocab_tables_def token_freqs_of_def)+

lemma vocab_tables_inv:
  "vocab_inv (fst (vocab_tables counter mf)) (snd (vocab_tables counter mf))"
proof -
  have base: "vocab_inv [unknown_token, padding_token] [unknown_token \<mapsto> 0, padding_token \<mapsto> 1]"
    using unknown_neq_padding by (auto simp: vocab_inv_def split: if_splits)
  obtain a b where ab: "vocab_tables counter mf = (a, b)"
    by (cases "vocab_tables counter mf")
  then have "vocab_inv a b"
    using vocab_inv_index_loop [OF base] by (simp add: vocab_tables_def)
  with ab show ?thesis
    by simp
qed

lemma vocab_tables_prefix:
  "\<exists>ys. fst (vocab_tables counter mf) = unknown_token # padding_token # ys"
  using index_loop_prefix [of "token_freqs_of counter" _ _ mf "[unknown_token, padding_token]"]
  by (simp add: vocab_tables_def)

lemma vocab_tables_special_idx:
  "snd (vocab_tables counter mf) unknown_token = Some 0"
  "snd (vocab_tables counter mf) padding_token = Some 1"
  using unknown_neq_padding
  by (auto simp: vocab_tables_def index_loop_specials)

lemma getitem_valid:
  "token_to_idx_getitem (Vocab_init counter mf) t < length (fst (vocab_tables counter mf))"
proof (cases "snd (vocab_tables counter mf) t")
  case None
  then show ?thesis
    using vocab_tables_prefix [of counter mf]
    by (auto simp: token_to_idx_getitem_def UNK_IDX_def Vocab_init_tables)
next
  case (Some i)
  then show ?thesis
    using vocab_tables_inv [of counter mf]
    by (simp add: token_to_idx_getitem_def vocab_inv_def Vocab_init_tables)
qed

lemma getitem_unknown:
  assumes t: "t \<notin> set (fst (vocab_tables counter mf))"
  shows "token_to_idx_getitem (Vocab_init counter mf) t = UNK_IDX"
proof (cases "snd (vocab_tables counter mf) t")
  case None
  then show ?thesis by (simp add: token_to_idx_getitem_def Vocab_init_tables)
next
  case (Some i)
  then have "i < length (fst (vocab_tables counter mf)) \<and> fst (vocab_tables counter mf) ! i = t"
    using vocab_tables_inv [of counter mf] by (simp add: vocab_inv_def)
  with t show ?thesis by (metis nth_mem)
qed

lemma getitem_set_embedding [simp]:
  "token_to_idx_getitem (set_embedding ft V) t = token_to_idx_getitem V t"
  by (simp add: token_to_idx_getitem_def set_embedding_def)

lemma to_indices_set_embedding [simp]:
  "to_indices (set_embedding ft V) sen = to_indices V sen"
  by (simp add: to_indices_def)

lemma idx_to_token_set_embedding [simp]:
  "idx_to_token (set_embedding ft V) = idx_to_token V"
  by (simp add: set_embedding_def)

lemma to_indices_valid:
  assumes "x \<in> set (to_indices (build_vocab ft tr) sen)"
  shows "0 \<le> x \<and> nat x < length (idx_to_token (build_vocab ft tr))"
  using assms getitem_valid [of "count_tokens (concat tr)" 15]
  by (auto simp: build_vocab_def to_indices_def Vocab_init_tables)

lemma encode_split_row_ok:
  assumes "encode_split (build_vocab ft tr) X = Inr rows" and "row \<in> set rows"
  shows "length row = 30 \<and>
         (\<forall>x\<in>set row. x = pad_value \<or> (0 \<le> x \<and> nat x < length (idx_to_token (build_vocab ft tr))))"
proof -
  from assms obtain sen where "row = encode_row (build_vocab ft tr) sen"
    unfolding encode_split_rows by auto
  then have
    row: "row = (if 30 < length sen then drop (length sen - 30) (to_indices (build_vocab ft tr) sen)
                 else to_indices (build_vocab ft tr) sen @ replicate (30 - length sen) pad_value)"
    by (simp add: encode_row_def)
  have len: "length (to_indices (build_vocab ft tr) sen) = length sen"
    by (simp add: to_indices_def)
  have "length row = 30"
    using row len by (simp split: if_splits)
  moreover have "x = pad_value \<or> (0 \<le> x \<and> nat x < length (idx_to_token (build_vocab ft tr)))"
    if "x \<in> set row" for x
  proof (cases "30 < length sen")
    case True
    with row that have "x \<in> set (to_indices (build_vocab ft tr) sen)"
      by (auto dest: in_set_dropD)
    then show ?thesis using to_indices_valid by blast
  next
    case False
    with row that have "x \<in> set (to_indices (build_vocab ft tr) sen) \<or> x = pad_value"
      by (auto split: if_splits)
    then show ?thesis using to_indices_valid by blast
  qed
  ultimately show ?thesis by blast
qed

lemma encode_split_length:
  "encode_split V X = Inr rows \<Longrightarrow> length rows = length X"
  unfolding encode_split_rows by auto

lemma index_loop_uncapped:
  "length i2t + length xs \<le> cap \<Longrightarrow>
   fst (index_loop xs sp cap mf (i2t, t2i)) =
     i2t @ filter (\<lambda>t. t \<notin> set sp) (map fst (takeWhile (\<lambda>x. \<not> snd x < mf) xs))"
proof (induction xs arbitrary: i2t t2i)
  case Nil
  then show ?case by simp
next
  case (Cons x xs)
  obtain token freq where x: "x = (token, freq)" by (cases x)
  from Cons.prems have ncap: "length i2t \<noteq> cap" and
    l1: "length (i2t @ [token]) + length xs \<le> cap" and l2: "length i2t + length xs \<le> cap"
    by simp_all
  show ?case
    using Cons.IH [OF l1] Cons.IH [OF l2] ncap by (simp add: x)
qed

lemma takeWhile_filter_sorted:
  "sorted (map g xs) \<Longrightarrow> (\<And>x y. g x \<le> g y \<Longrightarrow> P y \<Longrightarrow> P x) \<Longrightarrow> takeWhile P xs = filter P xs"
proof (induction xs)
  case Nil
  then show ?case by simp
next
  case (Cons x xs)
  show ?case
  proof (cases "P x")
    case True
    with Cons show ?thesis by simp
  next
    case False
    have "\<not> P y" if "y \<in> set xs" for y
      using that Cons.prems False by auto
    then have "filter P xs = []" by (simp add: filter_empty_conv)
    with False show ?thesis by simp
  qed
qed

lemma counter_update_map_of:
  "map_of (counter_update c toks) t =
     (if t \<in> set toks \<or> t \<in> dom (map_of c)
      then Some (counter_get c t 0 + count_list toks t) else None)"
proof (induction toks arbitrary: c)
  case Nil
  then show ?case by (auto simp: counter_get_def split: option.splits)
next
  case (Cons a toks)
  show ?case
    by (auto simp: Cons.IH update_conv' counter_get_def dom_def split: option.splits)
qed

lemma counter_update_distinct:
  "distinct (map fst c) \<Longrightarrow> distinct (map fst (counter_update c toks))"
  by (induction toks arbitrary: c) (simp_all add: distinct_update)

lemma count_tokens_set:
  "set (count_tokens toks) = (\<lambda>t. (t, count_list toks t)) ` set toks"
proof -
  have d: "distinct (map fst (count_tokens toks))"
    by (simp add: count_tokens_def counter_update_distinct)
  have m: "map_of (count_tokens toks) t =
      (if t \<in> set toks then Some (count_list toks t) else None)" for t
    by (simp add: count_tokens_def counter_update_map_of counter_get_def)
  show ?thesis
  proof (rule set_eqI)
    fix p :: "token \<times> nat"
    obtain t f where p: "p = (t, f)" by (cases p)
    have "(t, f) \<in> set (count_tokens toks) \<longleftrightarrow> map_of (count_tokens toks) t = Some f"
      using d by simp
    also have "\<dots> \<longleftrightarrow> t \<in> set toks \<and> f = count_list toks t"
      by (auto simp: m)
    finally show "p \<in> set (count_tokens toks) \<longleftrightarrow> p \<in> (\<lambda>t. (t, count_list toks t)) ` set toks"
      by (auto simp: p)
  qed
qed

lemma vocab_tables_tokens:
  "set (fst (vocab_tables counter mf)) =
     {unknown_token, padding_token} \<union> {t. \<exists>f. (t, f) \<in> set counter \<and> mf \<le> f}"
proof -
  let ?xs = "token_freqs_of counter"
  have len: "length ?xs = length counter" and set: "set ?xs = set counter"
    by (simp_all add: token_freqs_of_def)
  have sorted: "sorted (map (\<lambda>x. - int (snd x)) ?xs)"
    by (simp add: token_freqs_of_def)
  have tw: "takeWhile (\<lambda>x. \<not> snd x < mf) ?xs = filter (\<lambda>x. \<not> snd x < mf) ?xs"
    by (rule takeWhile_filter_sorted [OF sorted]) simp
  have cap: "length [unknown_token, padding_token] + length ?xs
      \<le> length (remdups [padding_token, unknown_token]) + length counter"
    using unknown_neq_padding by (simp add: len)
  have "fst (vocab_tables counter mf) =
      [unknown_token, padding_token] @
      filter (\<lambda>t. t \<notin> set (remdups [padding_token, unknown_token]))
        (map fst (filter (\<lambda>x. \<not> snd x < mf) ?xs))"
    unfolding vocab_tables_def using index_loop_uncapped [OF cap] by (simp add: tw)
  then show ?thesis
    by (auto simp: set image_iff not_less)
qed

lemma build_vocab_tokens:
  "set (idx_to_token (build_vocab ft tr)) =
     {unknown_token, padding_token} \<union>
     {t \<in> set (concat tr). 15 \<le> count_list (concat tr) t}"
  by (auto simp: build_vocab_def Vocab_init_tables vocab_tables_tokens count_tokens_set)

lemma build_vocab_unknown:
  assumes "token \<notin> set (idx_to_token (build_vocab ft tr))"
  shows "token_to_idx_getitem (build_vocab ft tr) token = UNK_IDX"
  using assms getitem_unknown [of token "count_tokens (concat tr)" 15]
  by (simp add: build_vocab_def Vocab_init_tables)

lemma build_vocab_unknown_token:
  "token_to_idx_getitem (build_vocab ft tr) unknown_token = UNK_IDX"
proof -
  have "token_to_idx_getitem (Vocab_init (count_tokens (concat tr)) 15) unknown_token = UNK_IDX"
    by (simp add: token_to_idx_getitem_def Vocab_init_tables vocab_tables_special_idx UNK_IDX_def)
  then show ?thesis by (simp add: build_vocab_def)
qed

lemma build_vocab_head:
  "\<exists>ys. idx_to_token (build_vocab ft tr) = unknown_token # padding_token # ys"
  using vocab_tables_prefix [of "count_tokens (concat tr)" 15]
  by (simp add: build_vocab_def Vocab_init_tables)

lemma preprocess_result:
  "preprocess morphs fasttext docs_tr docs_val docs_tst =
     Inr \<lparr> vocab = build_vocab fasttext (map morphs docs_tr),
           X_tr = map (encode_row (build_vocab fasttext (map morphs docs_tr))) (map morphs docs_tr),
           X_val = map (encode_row (build_vocab fasttext (map morphs docs_tr))) (map morphs docs_val),
           X_tst = map (encode_row (build_vocab fasttext (map morphs docs_tr))) (map morphs docs_tst) \<rparr>"
  by (simp add: preprocess_def final_preprocessing_def Let_def encode_split_rows)

subsection \<open>Every encoded review has 30 entries, each a vocabulary id or the pad value\<close>

text \<open>
  Claim C1. For every review of the train, validation and test splits, tokenization,
  vocabulary lookup and padding/truncation give a sequence of exactly 30 integers, and
  each of them is the pad value or a valid vocabulary id (an index below the size of the
  vocabulary). The preprocessing never fails, and it keeps one row per review.
\<close>

theorem preprocess_rows_30_valid_ids:
  "\<exists>st. preprocess morphs fasttext docs_tr docs_val docs_tst = Inr st
     \<and> length (X_tr st) = length docs_tr
     \<and> length (X_val st) = length docs_val
     \<and> length (X_tst st) = length docs_tst
     \<and> (\<forall>row \<in> set (X_tr st) \<union> set (X_val st) \<union> set (X_tst st).
          length row = 30 \<and>
          (\<forall>x \<in> set row. x = pad_value \<or>
             (0 \<le> x \<and> nat x < length (idx_to_token (vocab st)))))"
proof -
  define V where "V = build_vocab fasttext (map morphs docs_tr)"
  obtain xtr where xtr: "encode_split V (map morphs docs_tr) = Inr xtr"
    unfolding encode_split_rows by blast
  obtain xval where xval: "encode_split V (map morphs docs_val) = Inr xval"
    unfolding encode_split_rows by blast
  obtain xtst where xtst: "encode_split V (map morphs docs_tst) = Inr xtst"
    unfolding encode_split_rows by blast
  let ?st = "\<lparr> vocab = V, X_tr = xtr, X_val = xval, X_tst = xtst \<rparr>"
  have run: "preprocess morphs fasttext docs_tr docs_val docs_tst = Inr ?st"
    using xtr xval xtst by (simp add: preprocess_def final_preprocessing_def V_def Let_def)
  have rows: "length row = 30 \<and>
          (\<forall>x \<in> set row. x = pad_value \<or> (0 \<le> x \<and> nat x < length (idx_to_token V)))"
    if "row \<in> set xtr \<union> set xval \<union> set xtst" for row
    using that xtr xval xtst encode_split_row_ok unfolding V_def by blast
  have lens: "length xtr = length docs_tr" "length xval = length docs_val"
    "length xtst = length docs_tst"
    using xtr xval xtst encode_split_length by fastforce+
  show ?thesis
    using run rows lens by (intro exI [of _ ?st]) simp
qed

text \<open>
  A run: every character is a token, the training split is one review of fifteen \<open>a\<close> and
  one \<open>b\<close> (so the vocabulary is \<^verbatim>\<open><unk>\<close>, \<^verbatim>\<open><pad>\<close>, \<open>a\<close>), the validation split holds
  \<open>ab\<close> and the empty review, the test split one review of 31 \<open>a\<close>.
\<close>

theorem preprocess_rows_30_valid_ids_witness:
  "\<exists>st. preprocess (map (\<lambda>c. [c])) length
          [replicate 15 CHR ''a'' @ ''b''] [''ab'', ''''] [replicate 31 CHR ''a''] = Inr st
     \<and> length (X_tr st) = 1
     \<and> X_val st = [2 # 0 # replicate 28 1, replicate 30 1]
     \<and> X_tst st = [replicate 30 2]
     \<and> length (idx_to_token (vocab st)) = 3"
proof -
  let ?run = "preprocess (map (\<lambda>c. [c])) length
          [replicate 15 CHR ''a'' @ ''b''] [''ab'', ''''] [replicate 31 CHR ''a'']"
  obtain st where st: "?run = Inr st" and tr: "length (X_tr st) = length [replicate 15 CHR ''a'' @ ''b'']"
    using preprocess_rows_30_valid_ids
      [of "map (\<lambda>c. [c])" length "[replicate 15 CHR ''a'' @ ''b'']" "[''ab'', '''']"
          "[replicate 31 CHR ''a'']"]
    by blast
  have "case ?run of Inl e \<Rightarrow> False
        | Inr st \<Rightarrow> X_val st = [2 # 0 # replicate 28 1, replicate 30 1]
            \<and> X_tst st = [replicate 30 2] \<and> length (idx_to_token (vocab st)) = 3"
    by code_simp
  with st tr show ?thesis by simp
qed

subsection \<open>Long reviews lose their beginning, short reviews are padded at the end\<close>

text \<open>
  Claim C10. The encoding of a split never fails, and row by row: a tokenized review of
  more than 30 tokens keeps the ids of its last 30 tokens (the beginning is dropped), and
  a review of at most 30 tokens keeps all its ids, followed by as many pad values as are
  missing to 30.
\<close>

theorem encode_split_truncates_front_pads_end:
  "encode_split V X =
     Inr (map (\<lambda>sen. if 30 < length sen
                       then drop (length sen - 30) (to_indices V sen)
                       else to_indices V sen @ replicate (30 - length sen) pad_value) X)"
  by (simp add: encode_split_rows encode_row_def)

subsection \<open>A token outside the vocabulary gets the unknown id\<close>

text \<open>
  Claim C2, as the code has it. A token that is not in the vocabulary built from the
  training split (in particular a token that no training review contains, the literal
  padding token apart) is looked up as \<open>UNK_IDX = 0\<close>, the index that \<^verbatim>\<open><unk>\<close> already
  holds in the vocabulary: no index is allocated. That index is not the pad value 1 with
  which short reviews are filled.
\<close>

theorem unseen_token_maps_to_unknown_id:
  assumes "token \<notin> set (idx_to_token (build_vocab fasttext tr))
           \<or> (token \<notin> set (concat tr) \<and> token \<noteq> padding_token)"
  shows "token_to_idx_getitem (build_vocab fasttext tr) token = UNK_IDX
       \<and> UNK_IDX = 0
       \<and> UNK_IDX < length (idx_to_token (build_vocab fasttext tr))
       \<and> idx_to_token (build_vocab fasttext tr) ! UNK_IDX = unknown_token
       \<and> int UNK_IDX \<noteq> pad_value"
proof -
  have "token_to_idx_getitem (build_vocab fasttext tr) token = UNK_IDX"
  proof (cases "token = unknown_token")
    case True
    then show ?thesis by (simp add: build_vocab_unknown_token)
  next
    case False
    with assms have "token \<notin> set (idx_to_token (build_vocab fasttext tr))"
      by (auto simp: build_vocab_tokens)
    then show ?thesis by (rule build_vocab_unknown)
  qed
  moreover obtain ys where "idx_to_token (build_vocab fasttext tr) = unknown_token # padding_token # ys"
    using build_vocab_head by blast
  ultimately show ?thesis
    by (simp add: UNK_IDX_def pad_value_def)
qed

theorem unseen_token_maps_to_unknown_id_witness:
  "''b'' \<notin> set (concat [replicate 15 ''a'']) \<and> ''b'' \<noteq> padding_token
   \<and> token_to_idx_getitem (build_vocab length [replicate 15 ''a'']) ''b'' = 0
   \<and> token_to_idx_getitem (build_vocab length [replicate 15 ''a'']) ''a'' = 2
   \<and> idx_to_token (build_vocab length [replicate 15 ''a'']) = [''<unk>'', ''<pad>'', ''a'']"
proof -
  have h: "''b'' \<notin> set (concat [replicate 15 ''a'']) \<and> ''b'' \<noteq> padding_token"
    by (simp add: padding_token_def)
  have v: "token_to_idx_getitem (build_vocab length [replicate 15 ''a'']) ''a'' = 2
     \<and> idx_to_token (build_vocab length [replicate 15 ''a'']) = [''<unk>'', ''<pad>'', ''a'']"
    by code_simp
  show ?thesis
    using unseen_token_maps_to_unknown_id [of "''b''" length "[replicate 15 ''a'']"] h v
    by (simp add: UNK_IDX_def)
qed

text \<open>
  The claim as the specification words it, with one id that is both the unknown and the
  pad id, fails: with the vocabulary of fifteen \<open>a\<close>, the token \<open>b\<close> is outside the
  vocabulary and its id is not the pad value.
\<close>

theorem unseen_token_is_not_pad_value:
  "''b'' \<notin> set (idx_to_token (build_vocab length [replicate 15 ''a'']))
   \<and> int (token_to_idx_getitem (build_vocab length [replicate 15 ''a'']) ''b'') \<noteq> pad_value"
  by code_simp

subsection \<open>The vocabulary and the embedding matrix come from the training split alone\<close>

text \<open>
  Claim C3. The preprocessing succeeds, and the vocabulary it leaves behind after encoding
  the three splits is the one built from the training reviews alone: its tokens are the
  two special tokens and exactly the training tokens that occur at least 15 times, and its
  embedding matrix holds the pretrained vector of each of these tokens, in index order.
  Neither depends on the validation or the test reviews, which are only encoded with it.
\<close>

theorem vocabulary_from_training_only:
  "\<exists>st. preprocess morphs fasttext docs_tr docs_val docs_tst = Inr st
     \<and> vocab st = build_vocab fasttext (map morphs docs_tr)
     \<and> set (idx_to_token (vocab st)) =
         {unknown_token, padding_token} \<union>
         {t \<in> set (concat (map morphs docs_tr)).
            15 \<le> count_list (concat (map morphs docs_tr)) t}
     \<and> idx_to_vec (vocab st) = Some (map fasttext (idx_to_token (vocab st)))"
proof -
  have "idx_to_vec (build_vocab fasttext (map morphs docs_tr))
      = Some (map fasttext (idx_to_token (build_vocab fasttext (map morphs docs_tr))))"
    by (simp add: build_vocab_def set_embedding_def)
  then show ?thesis
    unfolding preprocess_result by (simp add: build_vocab_tokens)
qed

section \<open>Properties of the graph\<close>

lemma map2_same:
  "map2 f (map g xs) (map h xs) = map (\<lambda>x. f (g x) (h x)) xs"
  by (induction xs) simp_all

lemma foldl_map2_max:
  fixes acc :: "'a::linorder list"
  assumes "\<forall>r\<in>set rs. length r = length acc"
  shows "length (foldl (map2 max) acc rs) = length acc \<and>
         (\<forall>c<length acc. foldl (map2 max) acc rs ! c = Max (insert (acc ! c) ((\<lambda>r. r ! c) ` set rs)))"
  using assms
proof (induction rs arbitrary: acc)
  case Nil
  then show ?case by simp
next
  case (Cons r rs)
  let ?acc = "map2 max acc r"
  have len: "length ?acc = length acc"
    using Cons.prems by simp
  have rest: "\<forall>r\<in>set rs. length r = length ?acc"
    using Cons.prems len by simp
  note ih = Cons.IH [OF rest]
  have "foldl (map2 max) acc (r # rs) ! c = Max (insert (acc ! c) ((\<lambda>r. r ! c) ` set (r # rs)))"
    if c: "c < length acc" for c
  proof -
    have "foldl (map2 max) acc (r # rs) ! c = Max (insert (?acc ! c) ((\<lambda>r. r ! c) ` set rs))"
      using ih c len by simp
    also have "?acc ! c = max (acc ! c) (r ! c)"
      using c Cons.prems by simp
    also have "Max (insert (max (acc ! c) (r ! c)) ((\<lambda>r. r ! c) ` set rs))
        = Max (insert (acc ! c) (insert (r ! c) ((\<lambda>r. r ! c) ` set rs)))"
      by (cases "set rs = {}") (simp_all add: max.assoc)
    finally show ?thesis by simp
  qed
  with ih len show ?case by simp
qed

lemma reduce_max_rows_table:
  fixes G :: "nat \<Rightarrow> nat \<Rightarrow> 'a::linordered_field"
  assumes "0 < n"
  shows "reduce_max_rows (map (\<lambda>t. map (\<lambda>c. G t c) [0..<f]) [0..<n])
       = map (\<lambda>c. Max ((\<lambda>t. G t c) ` {0..<n})) [0..<f]"
proof -
  let ?row = "\<lambda>t. map (\<lambda>c. G t c) [0..<f]"
  have split: "[0..<n] = 0 # [Suc 0..<n]"
    using assms by (simp add: upt_conv_Cons)
  have red: "reduce_max_rows (map ?row [0..<n]) = foldl (map2 max) (?row 0) (map ?row [Suc 0..<n])"
    by (subst split) simp
  have "\<forall>r\<in>set (map ?row [Suc 0..<n]). length r = length (?row 0)"
    by simp
  from foldl_map2_max [OF this]
  have len: "length (foldl (map2 max) (?row 0) (map ?row [Suc 0..<n])) = f"
    and el: "\<And>c. c < f \<Longrightarrow> foldl (map2 max) (?row 0) (map ?row [Suc 0..<n]) ! c
        = Max (insert (?row 0 ! c) ((\<lambda>r. r ! c) ` set (map ?row [Suc 0..<n])))"
    by simp_all
  show ?thesis
  proof (rule nth_equalityI)
    show "length (reduce_max_rows (map ?row [0..<n])) = length (map (\<lambda>c. Max ((\<lambda>t. G t c) ` {0..<n})) [0..<f])"
      by (simp add: red len)
  next
    fix c
    assume "c < length (reduce_max_rows (map ?row [0..<n]))"
    then have c: "c < f" by (simp add: red len)
    have "insert (?row 0 ! c) ((\<lambda>r. r ! c) ` set (map ?row [Suc 0..<n])) = (\<lambda>t. G t c) ` {0..<n}"
    proof -
      have "{0..<n} = insert 0 {Suc 0..<n}" using assms by auto
      moreover have "(\<lambda>r. r ! c) ` set (map ?row [Suc 0..<n]) = (\<lambda>t. G t c) ` {Suc 0..<n}"
        using c by (simp add: image_image)
      ultimately show ?thesis using c by simp
    qed
    then show "reduce_max_rows (map ?row [0..<n]) ! c = map (\<lambda>c. Max ((\<lambda>t. G t c) ` {0..<n})) [0..<f] ! c"
      using c by (simp add: red el)
  qed
qed

lemma bank_max_over_time:
  assumes "\<forall>x\<in>set X. k \<le> length x"
  shows "reduce_max_axis1 (tensor_add (Conv1D f k kern bias (embedding_lookup P X))
                                      (Conv1D f k kern bias (embedding_lookup Q X)))
       = map (\<lambda>x. max_over_time f k kern bias (map (\<lambda>i. P ! nat i) x) (map (\<lambda>i. Q ! nat i) x)) X"
proof -
  have row: "reduce_max_rows
        (map2 (map2 (+))
           (map (\<lambda>t. map (\<lambda>c. relu (conv_window k kern bias (map (\<lambda>i. P ! nat i) x) t c)) [0..<f])
                [0..<length x + 1 - k])
           (map (\<lambda>t. map (\<lambda>c. relu (conv_window k kern bias (map (\<lambda>i. Q ! nat i) x) t c)) [0..<f])
                [0..<length x + 1 - k]))
      = max_over_time f k kern bias (map (\<lambda>i. P ! nat i) x) (map (\<lambda>i. Q ! nat i) x)"
    if "x \<in> set X" for x
  proof -
    from that assms have pos: "0 < Suc (length x) - k" by auto
    show ?thesis
      by (simp add: map2_same reduce_max_rows_table [OF pos] max_over_time_def summed_conv_def)
  qed
  have "reduce_max_axis1 (tensor_add (Conv1D f k kern bias (embedding_lookup P X))
                                      (Conv1D f k kern bias (embedding_lookup Q X)))
      = map (\<lambda>x. reduce_max_rows
        (map2 (map2 (+))
           (map (\<lambda>t. map (\<lambda>c. relu (conv_window k kern bias (map (\<lambda>i. P ! nat i) x) t c)) [0..<f])
                [0..<length x + 1 - k])
           (map (\<lambda>t. map (\<lambda>c. relu (conv_window k kern bias (map (\<lambda>i. Q ! nat i) x) t c)) [0..<f])
                [0..<length x + 1 - k]))) X"
    by (simp add: reduce_max_axis1_def tensor_add_def Conv1D_def embedding_lookup_def map2_same o_def)
  also have "\<dots> = map (\<lambda>x. max_over_time f k kern bias (map (\<lambda>i. P ! nat i) x) (map (\<lambda>i. Q ! nat i) x)) X"
    by (rule map_cong [OF refl]) (rule row)
  finally show ?thesis .
qed

lemma concat_last_maps:
  "concat_last (map f xs) (map g xs) (map h xs) = map (\<lambda>x. f x @ g x @ h x) xs"
  by (induction xs) (simp_all add: concat_last_def)

lemma length_max_over_time [simp]:
  "length (max_over_time f k kern bias s n) = f"
  by (simp add: max_over_time_def)


subsection \<open>Three filter banks, shared between the two tables, summed, pooled, concatenated\<close>

text \<open>
  Claim C5. For every batch of encoded reviews (30 ids each), the feature vector of a
  review is the concatenation of three vectors of 100 entries, one for each filter bank
  (window widths 3, 4 and 5). The entry of a bank for filter \<open>c\<close> is the maximum, over all
  window positions of the review, of the sum of the bank's output on the frozen embedding
  and the same bank's output (same kernel, same bias) on the trainable embedding of the
  same ids. So each review gets 300 features, whatever the batch.
\<close>

theorem flattened_concat_max_over_time:
  assumes "\<forall>x\<in>set X. length x = 30"
  shows "flattened vars X =
      map (\<lambda>x. max_over_time 100 3 (tri_gram_kernel vars) (tri_gram_bias vars)
                   (map (\<lambda>i. static_embed vars ! nat i) x)
                   (map (\<lambda>i. non_static_embed vars ! nat i) x)
               @ max_over_time 100 4 (tetra_gram_kernel vars) (tetra_gram_bias vars)
                   (map (\<lambda>i. static_embed vars ! nat i) x)
                   (map (\<lambda>i. non_static_embed vars ! nat i) x)
               @ max_over_time 100 5 (penta_gram_kernel vars) (penta_gram_bias vars)
                   (map (\<lambda>i. static_embed vars ! nat i) x)
                   (map (\<lambda>i. non_static_embed vars ! nat i) x)) X
    \<and> length (flattened vars X) = length X
    \<and> (\<forall>v\<in>set (flattened vars X). length v = 300)"
proof -
  have k3: "\<forall>x\<in>set X. 3 \<le> length x" and k4: "\<forall>x\<in>set X. 4 \<le> length x"
    and k5: "\<forall>x\<in>set X. 5 \<le> length x"
    using assms by simp_all
  have eq: "flattened vars X =
      map (\<lambda>x. max_over_time 100 3 (tri_gram_kernel vars) (tri_gram_bias vars)
                   (map (\<lambda>i. static_embed vars ! nat i) x)
                   (map (\<lambda>i. non_static_embed vars ! nat i) x)
               @ max_over_time 100 4 (tetra_gram_kernel vars) (tetra_gram_bias vars)
                   (map (\<lambda>i. static_embed vars ! nat i) x)
                   (map (\<lambda>i. non_static_embed vars ! nat i) x)
               @ max_over_time 100 5 (penta_gram_kernel vars) (penta_gram_bias vars)
                   (map (\<lambda>i. static_embed vars ! nat i) x)
                   (map (\<lambda>i. non_static_embed vars ! nat i) x)) X"
    unfolding flattened_def fmap_3_def fmap_4_def fmap_5_def tri_gram_def tetra_gram_def
      penta_gram_def static_batch_def non_static_batch_def
      bank_max_over_time [OF k3] bank_max_over_time [OF k4] bank_max_over_time [OF k5]
    by (rule concat_last_maps)
  show ?thesis
    unfolding eq by auto
qed

theorem flattened_concat_max_over_time_witness:
  "length (flattened example_variables example_batch) = 1
   \<and> length (hd (flattened example_variables example_batch)) = 300
   \<and> hd (flattened example_variables example_batch) ! 0 = 6
   \<and> hd (flattened example_variables example_batch) ! 299 = 10"
proof -
  let ?row = "2 # 0 # replicate 28 (1::int)"
  let ?s = "map (\<lambda>i. static_embed example_variables ! nat i) ?row"
  let ?n = "map (\<lambda>i. non_static_embed example_variables ! nat i) ?row"
  let ?m3 = "max_over_time 100 3 (tri_gram_kernel example_variables)
               (tri_gram_bias example_variables) ?s ?n"
  let ?m4 = "max_over_time 100 4 (tetra_gram_kernel example_variables)
               (tetra_gram_bias example_variables) ?s ?n"
  let ?m5 = "max_over_time 100 5 (penta_gram_kernel example_variables)
               (penta_gram_bias example_variables) ?s ?n"
  have h: "\<forall>x\<in>set example_batch. length x = 30"
    by (simp add: example_batch_def)
  have eq: "flattened example_variables example_batch = [?m3 @ ?m4 @ ?m5]"
    using flattened_concat_max_over_time [OF h, of example_variables]
    by (simp add: example_batch_def)
  have first: "Max ((\<lambda>t. summed_conv 3 (tri_gram_kernel example_variables)
                           (tri_gram_bias example_variables) ?s ?n t 0)
                    ` {0..<length ?s + 1 - 3}) = 6"
    by code_simp
  have last: "Max ((\<lambda>t. summed_conv 5 (penta_gram_kernel example_variables)
                          (penta_gram_bias example_variables) ?s ?n t 99)
                   ` {0..<length ?s + 1 - 5}) = 10"
    by code_simp
  have "?m3 ! 0 = 6"
    unfolding max_over_time_def using first by (simp del: length_map)
  moreover have "?m5 ! 99 = 10"
    unfolding max_over_time_def using last by (simp del: length_map)
  moreover have "(?m3 @ ?m4 @ ?m5) ! 0 = ?m3 ! 0" "(?m3 @ ?m4 @ ?m5) ! 299 = ?m5 ! 99"
    by (simp_all add: nth_append)
  ultimately show ?thesis
    unfolding eq by simp
qed

subsection \<open>Dropout acts in training mode only\<close>

text \<open>
  Claim C6. The dropout layer (rate 0.5) sits on the output of the dense layer. With the
  training flag false it returns its input, whatever the random tensor: the logits are the
  dense output, so two runs on the same batch with the same variables give the same logits
  and the same arg-max predictions. With the flag true the logits are the dense output
  divided by the keep probability \<open>1 - 0.5\<close> and multiplied by the random tensor of zeros
  and ones.
\<close>

theorem dropout_identity_at_inference:
  "score vars X False b1 = dense_output vars X
   \<and> score vars X False b1 = score vars X False b2
   \<and> prediction vars X False b1 = prediction vars X False b2
   \<and> score vars X True b1 = map2 (map2 (\<lambda>v b. v / (1 - 1 / 2) * b)) (dense_output vars X) b1"
  by (simp add: score_def prediction_def Dropout_def)

text \<open>
  The layer on the logits \<open>[2400, 0]\<close> of one review: at inference they pass unchanged
  and class 0 is predicted; in training mode a zero of the random tensor silences an
  entry and a one doubles it.
\<close>

lemma example_dropout_modes:
  "Dropout (1 / 2) [[2400, 0 :: rat]] False [[0, 0]] = [[2400, 0]]
   \<and> Dropout (1 / 2) [[2400, 0 :: rat]] True [[0, 1]] = [[0, 0]]
   \<and> Dropout (1 / 2) [[2400, 0 :: rat]] True [[1, 1]] = [[4800, 0]]
   \<and> argmax [2400, 0 :: rat] = 0"
  by (simp add: Dropout_def argmax_def)

section \<open>Properties of the training loop\<close>

lemma apply_gradients_trainable:
  "apply_gradients trainable_variables updated vars =
     vars\<lparr> non_static_embed := non_static_embed updated,
           tri_gram_kernel := tri_gram_kernel updated,
           tri_gram_bias := tri_gram_bias updated,
           tetra_gram_kernel := tetra_gram_kernel updated,
           tetra_gram_bias := tetra_gram_bias updated,
           penta_gram_kernel := penta_gram_kernel updated,
           penta_gram_bias := penta_gram_bias updated,
           dense_kernel := dense_kernel updated,
           dense_bias := dense_bias updated \<rparr>"
  by (simp add: apply_gradients_def trainable_variables_def declared_variables_def)

lemma sess_run_training_op_cases:
  "sess_run_training_op be st = Inl OutOfRangeError \<and> tr_iterator st = []
   \<or> (\<exists>st' l b rest. sess_run_training_op be st = Inr (st', l)
        \<and> tr_iterator st = b # rest \<and> tr_iterator st' = rest
        \<and> val_iterator st' = val_iterator st
        \<and> static_embed (variables st') = static_embed (variables st))"
  by (cases "tr_iterator st")
     (auto simp: sess_run_training_op_def apply_gradients_trainable split: prod.splits)

lemma sess_run_total_loss_cases:
  "sess_run_total_loss be st = Inl OutOfRangeError \<and> val_iterator st = []
   \<or> (\<exists>st' l b rest. sess_run_total_loss be st = Inr (st', l)
        \<and> val_iterator st = b # rest \<and> val_iterator st' = rest
        \<and> tr_iterator st' = tr_iterator st
        \<and> variables st' = variables st \<and> framework st' = framework st)"
  by (cases "val_iterator st") (auto simp: sess_run_total_loss_def)

declare train_loop.simps [simp del] val_loop.simps [simp del]
  tr_losses.simps [simp del] val_losses.simps [simp del] batch_dataset.simps [simp del]

lemma length_tr_losses:
  "length (tr_losses be st) = length (tr_iterator st)"
proof (induction be st rule: tr_losses.induct)
  case (1 be st)
  show ?case
    using sess_run_training_op_cases [of be st] "1.IH"
    by (subst tr_losses.simps) auto
qed

lemma length_val_losses:
  "length (val_losses be st) = length (val_iterator st)"
proof (induction be st rule: val_losses.induct)
  case (1 be st)
  show ?case
    using sess_run_total_loss_cases [of be st] "1.IH"
    by (subst val_losses.simps) auto
qed

lemma train_loop_result:
  "\<exists>st'. train_loop be st avg n =
            Inr (st', avg + sum_list (tr_losses be st), n + length (tr_losses be st))
        \<and> tr_iterator st' = []
        \<and> val_iterator st' = val_iterator st
        \<and> static_embed (variables st') = static_embed (variables st)"
proof (induction be st avg n rule: train_loop.induct)
  case (1 be st avg n)
  from sess_run_training_op_cases [of be st] show ?case
  proof (elim disjE conjE exE)
    assume stop: "sess_run_training_op be st = Inl OutOfRangeError" "tr_iterator st = []"
    then have "tr_losses be st = []"
      by (subst tr_losses.simps) simp
    with stop show ?thesis
      by (subst train_loop.simps) simp
  next
    fix st' l b rest
    assume run: "sess_run_training_op be st = Inr (st', l)"
      and frame: "val_iterator st' = val_iterator st"
        "static_embed (variables st') = static_embed (variables st)"
    from "1.IH" [OF run refl] obtain st'' where
      "train_loop be st' (avg + l) (n + 1) =
         Inr (st'', avg + l + sum_list (tr_losses be st'), n + 1 + length (tr_losses be st'))"
      "tr_iterator st'' = []" "val_iterator st'' = val_iterator st'"
      "static_embed (variables st'') = static_embed (variables st')"
      by blast
    moreover have "tr_losses be st = l # tr_losses be st'"
      using run by (subst tr_losses.simps) simp
    ultimately show ?thesis
      using run frame by (subst train_loop.simps) (simp add: add.assoc)
  qed
qed

lemma val_loop_result:
  "\<exists>st'. val_loop be st avg n =
            Inr (st', avg + sum_list (val_losses be st), n + length (val_losses be st))
        \<and> val_iterator st' = []
        \<and> tr_iterator st' = tr_iterator st
        \<and> variables st' = variables st"
proof (induction be st avg n rule: val_loop.induct)
  case (1 be st avg n)
  from sess_run_total_loss_cases [of be st] show ?case
  proof (elim disjE conjE exE)
    assume stop: "sess_run_total_loss be st = Inl OutOfRangeError" "val_iterator st = []"
    then have "val_losses be st = []"
      by (subst val_losses.simps) simp
    with stop show ?thesis
      by (subst val_loop.simps) simp
  next
    fix st' l b rest
    assume run: "sess_run_total_loss be st = Inr (st', l)"
      and frame: "tr_iterator st' = tr_iterator st" "variables st' = variables st"
    from "1.IH" [OF run refl] obtain st'' where
      "val_loop be st' (avg + l) (n + 1) =
         Inr (st'', avg + l + sum_list (val_losses be st'), n + 1 + length (val_losses be st'))"
      "val_iterator st'' = []" "tr_iterator st'' = tr_iterator st'"
      "variables st'' = variables st'"
      by blast
    moreover have "val_losses be st = l # val_losses be st'"
      using run by (subst val_losses.simps) simp
    ultimately show ?thesis
      using run frame by (subst val_loop.simps) (simp add: add.assoc)
  qed
qed

lemma ceil_div_step:
  "0 < n \<Longrightarrow> 0 < (m::nat) \<Longrightarrow> (m + n - 1) div n = Suc ((m - 1) div n)"
proof -
  assume n: "0 < n" and m: "0 < m"
  then obtain k where k: "m = Suc k" by (cases m) auto
  have "(k + n) div n = Suc (k div n)"
    using n by (simp add: div_add_self2)
  then show ?thesis by (simp add: k)
qed

lemma length_batch_dataset:
  "0 < n \<Longrightarrow> length (batch_dataset n xs) = (length xs + n - 1) div n"
proof (induction n xs rule: batch_dataset.induct)
  case (1 n xs)
  show ?case
  proof (cases "xs = []")
    case True
    with "1.prems" show ?thesis
      by (subst batch_dataset.simps) simp
  next
    case False
    then have pos: "0 < length xs" by simp
    have ih: "length (batch_dataset n (drop n xs)) = (length xs - n + n - 1) div n"
      using "1.IH" "1.prems" False by simp
    have a: "(length xs - n + n - 1) div n = (length xs - 1) div n"
      using "1.prems" pos by (cases "n \<le> length xs") simp_all
    have b: "(length xs + n - 1) div n = Suc ((length xs - 1) div n)"
      using "1.prems" pos by (rule ceil_div_step)
    have "length (batch_dataset n xs) = Suc (length (batch_dataset n (drop n xs)))"
      using False "1.prems" by (subst batch_dataset.simps) simp
    also have "\<dots> = (length xs + n - 1) div n"
      by (simp only: ih a b)
    finally show ?thesis .
  qed
qed

lemma initializers_frame:
  "variables (tr_iterator_initializer be tr st) = variables st"
  "val_iterator (tr_iterator_initializer be tr st) = val_iterator st"
  "variables (val_iterator_initializer val st) = variables st"
  "tr_iterator (val_iterator_initializer val st) = tr_iterator st"
  by (simp_all add: tr_iterator_initializer_def val_iterator_initializer_def split: prod.splits)

lemma length_tr_iterator_initializer:
  assumes "length (snd (shuffle be (framework st) tr)) = length tr"
  shows "length (tr_iterator (tr_iterator_initializer be tr st)) = (length tr + 99) div 100"
proof -
  obtain f shuffled where sh: "shuffle be (framework st) tr = (f, shuffled)"
    by (cases "shuffle be (framework st) tr")
  with assms have "length shuffled = length tr" by simp
  then show ?thesis
    using length_batch_dataset [of batch_size shuffled]
    by (simp add: tr_iterator_initializer_def batch_size_def sh)
qed

lemma length_val_iterator_initializer:
  "length (val_iterator (val_iterator_initializer val st)) = (length val + 99) div 100"
  using length_batch_dataset [of batch_size val]
  by (simp add: val_iterator_initializer_def batch_size_def)

lemma run_epoch_result:
  assumes shuf: "length (snd (shuffle be (framework st) tr)) = length tr"
    and tr: "tr \<noteq> []" and val: "val \<noteq> []"
  shows "\<exists>st2 st4.
      train_loop be (tr_iterator_initializer be tr st) 0 0 =
        Inr (st2, sum_list (tr_losses be (tr_iterator_initializer be tr st)),
             length (tr_losses be (tr_iterator_initializer be tr st)))
    \<and> tr_iterator st2 = []
    \<and> val_loop be (val_iterator_initializer val st2) 0 0 =
        Inr (st4, sum_list (val_losses be (val_iterator_initializer val st2)),
             length (val_losses be (val_iterator_initializer val st2)))
    \<and> val_iterator st4 = []
    \<and> run_epoch be tr val st =
        Inr (st4,
             sum_list (tr_losses be (tr_iterator_initializer be tr st))
               / of_nat (length (tr_losses be (tr_iterator_initializer be tr st))),
             sum_list (val_losses be (val_iterator_initializer val st2))
               / of_nat (length (val_losses be (val_iterator_initializer val st2))))
    \<and> length (tr_losses be (tr_iterator_initializer be tr st)) = (length tr + 99) div 100
    \<and> length (val_losses be (val_iterator_initializer val st2)) = (length val + 99) div 100"
proof -
  let ?st1 = "tr_iterator_initializer be tr st"
  obtain st2 where t: "train_loop be ?st1 0 0 =
        Inr (st2, 0 + sum_list (tr_losses be ?st1), 0 + length (tr_losses be ?st1))"
    and t_it: "tr_iterator st2 = []"
    using train_loop_result [of be ?st1 0 0] by blast
  let ?st3 = "val_iterator_initializer val st2"
  obtain st4 where v: "val_loop be ?st3 0 0 =
        Inr (st4, 0 + sum_list (val_losses be ?st3), 0 + length (val_losses be ?st3))"
    and v_it: "val_iterator st4 = []"
    using val_loop_result [of be ?st3 0 0] by blast
  have nt: "length (tr_losses be ?st1) = (length tr + 99) div 100"
    by (simp add: length_tr_losses length_tr_iterator_initializer [OF shuf])
  have nv: "length (val_losses be ?st3) = (length val + 99) div 100"
    by (simp add: length_val_losses length_val_iterator_initializer)
  have pt: "0 < (length tr + 99) div 100" and pv: "0 < (length val + 99) div 100"
    using tr val by (cases tr; cases val; simp add: div_greater_zero_iff)+
  have run: "run_epoch be tr val st =
        Inr (st4, sum_list (tr_losses be ?st1) / of_nat (length (tr_losses be ?st1)),
             sum_list (val_losses be ?st3) / of_nat (length (val_losses be ?st3)))"
    using t v nt nv pt pv by (simp add: run_epoch_def)
  show ?thesis
    using t t_it v run nt nv v_it by (intro exI [of _ st2] exI [of _ st4]) simp
qed

lemma run_epoch_static:
  assumes "run_epoch be tr val st = Inr (st', a, b)"
  shows "static_embed (variables st') = static_embed (variables st)"
proof -
  let ?st1 = "tr_iterator_initializer be tr st"
  obtain st2 where t: "train_loop be ?st1 0 0 =
        Inr (st2, 0 + sum_list (tr_losses be ?st1), 0 + length (tr_losses be ?st1))"
    and t_static: "static_embed (variables st2) = static_embed (variables ?st1)"
    using train_loop_result [of be ?st1 0 0] by blast
  let ?st3 = "val_iterator_initializer val st2"
  obtain st4 where v: "val_loop be ?st3 0 0 =
        Inr (st4, 0 + sum_list (val_losses be ?st3), 0 + length (val_losses be ?st3))"
    and v_vars: "variables st4 = variables ?st3"
    using val_loop_result [of be ?st3 0 0] by blast
  from assms t v have "st' = st4"
    by (simp add: run_epoch_def split: if_splits)
  with t_static v_vars show ?thesis
    by (simp add: initializers_frame)
qed

lemma training_static:
  "training be tr val k st h1 h2 = Inr (st', h1', h2') \<Longrightarrow>
   static_embed (variables st') = static_embed (variables st)"
proof (induction k arbitrary: st h1 h2)
  case 0
  then show ?case by simp
next
  case (Suc k)
  from Suc.prems obtain st1 a b where e: "run_epoch be tr val st = Inr (st1, a, b)"
    and r: "training be tr val k st1 (h1 @ [a]) (h2 @ [b]) = Inr (st', h1', h2')"
    by (auto split: sum.splits)
  from Suc.IH [OF r] run_epoch_static [OF e] show ?case by simp
qed

subsection \<open>Each phase runs until its iterator is exhausted and reports the mean loss\<close>

text \<open>
  Claim C8. In any epoch (any session \<open>st\<close> at its start), with datasets that are not empty
  and a shuffle that delivers a permutation of the training examples: the training loop
  returns, having taken one step for each batch of the freshly initialized iterator, the
  last partial batch included (\<open>\<lceil>N / 100\<rceil>\<close> steps for \<open>N\<close> examples, not a count fixed in
  advance), and it stops with that iterator exhausted; likewise the validation loop; and
  the two losses the epoch reports are, for each phase, the sum of its per-batch losses
  divided by the number of batches it processed.
\<close>

theorem epoch_runs_to_exhaustion_and_reports_mean:
  assumes "mset (snd (shuffle be (framework st) tr_dataset)) = mset tr_dataset"
    and "tr_dataset \<noteq> []" and "val_dataset \<noteq> []"
  shows "\<exists>st2 st4 tr_ls val_ls.
      tr_ls = tr_losses be (tr_iterator_initializer be tr_dataset st)
    \<and> train_loop be (tr_iterator_initializer be tr_dataset st) 0 0
        = Inr (st2, sum_list tr_ls, length tr_ls)
    \<and> tr_iterator st2 = []
    \<and> length tr_ls = (length tr_dataset + 99) div 100
    \<and> val_ls = val_losses be (val_iterator_initializer val_dataset st2)
    \<and> val_loop be (val_iterator_initializer val_dataset st2) 0 0
        = Inr (st4, sum_list val_ls, length val_ls)
    \<and> val_iterator st4 = []
    \<and> length val_ls = (length val_dataset + 99) div 100
    \<and> run_epoch be tr_dataset val_dataset st
        = Inr (st4, sum_list tr_ls / of_nat (length tr_ls),
               sum_list val_ls / of_nat (length val_ls))"
proof -
  have len: "length (snd (shuffle be (framework st) tr_dataset)) = length tr_dataset"
    using assms(1) by (rule mset_eq_length)
  from run_epoch_result [OF len assms(2) assms(3)] obtain st2 st4 where
    "train_loop be (tr_iterator_initializer be tr_dataset st) 0 0 =
        Inr (st2, sum_list (tr_losses be (tr_iterator_initializer be tr_dataset st)),
             length (tr_losses be (tr_iterator_initializer be tr_dataset st)))"
    "tr_iterator st2 = []"
    "val_loop be (val_iterator_initializer val_dataset st2) 0 0 =
        Inr (st4, sum_list (val_losses be (val_iterator_initializer val_dataset st2)),
             length (val_losses be (val_iterator_initializer val_dataset st2)))"
    "val_iterator st4 = []"
    "run_epoch be tr_dataset val_dataset st =
        Inr (st4,
             sum_list (tr_losses be (tr_iterator_initializer be tr_dataset st))
               / of_nat (length (tr_losses be (tr_iterator_initializer be tr_dataset st))),
             sum_list (val_losses be (val_iterator_initializer val_dataset st2))
               / of_nat (length (val_losses be (val_iterator_initializer val_dataset st2))))"
    "length (tr_losses be (tr_iterator_initializer be tr_dataset st))
       = (length tr_dataset + 99) div 100"
    "length (val_losses be (val_iterator_initializer val_dataset st2))
       = (length val_dataset + 99) div 100"
    by blast
  then show ?thesis
    by (intro exI [of _ st2] exI [of _ st4]
        exI [of _ "tr_losses be (tr_iterator_initializer be tr_dataset st)"]
        exI [of _ "val_losses be (val_iterator_initializer val_dataset st2)"]) simp
qed

text \<open>
  On the example: 250 training examples make three batches (100, 100, 50) and 120
  validation examples two (100, 20); the reported losses are \<open>250 / 3\<close> and \<open>60\<close>.
\<close>

theorem epoch_runs_to_exhaustion_and_reports_mean_witness:
  "mset (snd (shuffle example_backend (framework example_session) example_tr_dataset))
     = mset example_tr_dataset
   \<and> example_tr_dataset \<noteq> [] \<and> example_val_dataset \<noteq> []
   \<and> (\<exists>st a b. run_epoch example_backend example_tr_dataset example_val_dataset example_session
                  = Inr (st, a, b)
        \<and> a = 250 / 3 \<and> b = 60 \<and> tr_iterator st = [] \<and> val_iterator st = [])
   \<and> length (tr_losses example_backend
               (tr_iterator_initializer example_backend example_tr_dataset example_session)) = 3"
proof -
  have h1: "mset (snd (shuffle example_backend (framework example_session) example_tr_dataset))
     = mset example_tr_dataset"
    by (simp add: example_backend_def)
  have h2: "example_tr_dataset \<noteq> []" and h3: "example_val_dataset \<noteq> []"
    by (simp_all add: example_tr_dataset_def example_val_dataset_def)
  have run: "case run_epoch example_backend example_tr_dataset example_val_dataset example_session of
       Inl e \<Rightarrow> False
     | Inr (st, a, b) \<Rightarrow> a = 250 / 3 \<and> b = 60 \<and> tr_iterator st = [] \<and> val_iterator st = []"
    by code_simp
  from epoch_runs_to_exhaustion_and_reports_mean [OF h1 h2 h3]
  have "length (tr_losses example_backend
               (tr_iterator_initializer example_backend example_tr_dataset example_session))
        = (length example_tr_dataset + 99) div 100"
    by metis
  then have n: "length (tr_losses example_backend
               (tr_iterator_initializer example_backend example_tr_dataset example_session)) = 3"
    by (simp add: example_tr_dataset_def)
  from run have "\<exists>st a b. run_epoch example_backend example_tr_dataset example_val_dataset
        example_session = Inr (st, a, b)
        \<and> a = 250 / 3 \<and> b = 60 \<and> tr_iterator st = [] \<and> val_iterator st = []"
    by (auto split: sum.splits)
  with h1 h2 h3 n show ?thesis by blast
qed

subsection \<open>Training never writes the static embedding table\<close>

text \<open>
  Claim C4. Both embedding tables are initialized to the same pretrained matrix, and both
  are looked up with the same ids. The static table is created with \<open>trainable = False\<close>, so
  it is not among the variables the training operation assigns: a training step writes
  the non-static table, the kernels and biases of the three convolutions and of the dense
  layer, and nothing else. Hence a \<open>sess.run\<close> of the training operation leaves the static
  table as it was, and after the whole training it still is the pretrained matrix.
\<close>

theorem static_table_unchanged_by_training:
  "static_embed (global_variables_initializer embedding draw) = embedding
   \<and> non_static_embed (global_variables_initializer embedding draw) = embedding
   \<and> static_batch vars X = embedding_lookup (static_embed vars) X
   \<and> non_static_batch vars X = embedding_lookup (non_static_embed vars) X
   \<and> Static \<notin> set trainable_variables
   \<and> apply_gradients trainable_variables updated vars =
       vars\<lparr> non_static_embed := non_static_embed updated,
             tri_gram_kernel := tri_gram_kernel updated,
             tri_gram_bias := tri_gram_bias updated,
             tetra_gram_kernel := tetra_gram_kernel updated,
             tetra_gram_bias := tetra_gram_bias updated,
             penta_gram_kernel := penta_gram_kernel updated,
             penta_gram_bias := penta_gram_bias updated,
             dense_kernel := dense_kernel updated,
             dense_bias := dense_bias updated \<rparr>
   \<and> (\<forall>st' tr_loss. sess_run_training_op be st = Inr (st', tr_loss) \<longrightarrow>
         static_embed (variables st') = static_embed (variables st))
   \<and> (\<forall>st' tr_loss_hist val_loss_hist.
         run_training be embedding draw f0 tr_dataset val_dataset
           = Inr (st', tr_loss_hist, val_loss_hist) \<longrightarrow>
         static_embed (variables st') = embedding)"
proof -
  have init: "static_embed (global_variables_initializer embedding draw) = embedding"
    "non_static_embed (global_variables_initializer embedding draw) = embedding"
    by (simp_all add: global_variables_initializer_def)
  have lookups: "static_batch vars X = embedding_lookup (static_embed vars) X"
    "non_static_batch vars X = embedding_lookup (non_static_embed vars) X"
    by (simp_all add: static_batch_def non_static_batch_def)
  have flag: "Static \<notin> set trainable_variables"
    by (simp add: trainable_variables_def declared_variables_def)
  have step: "static_embed (variables st') = static_embed (variables st)"
    if "sess_run_training_op be st = Inr (st', tr_loss)" for st' tr_loss
    using that sess_run_training_op_cases [of be st] by auto
  have whole: "static_embed (variables st') = embedding"
    if "run_training be embedding draw f0 tr_dataset val_dataset
          = Inr (st', tr_loss_hist, val_loss_hist)" for st' tr_loss_hist val_loss_hist
    using training_static [OF that [unfolded run_training_def]] init(1) by simp
  show ?thesis
    using init lookups flag step whole apply_gradients_trainable [of updated vars] by blast
qed

text \<open>
  On the example the optimizer proposes the table \<open>[[7]]\<close> for every variable: after the
  five epochs the non-static table holds it, the static table is still the initial matrix.
\<close>

theorem static_table_unchanged_by_training_witness:
  "\<exists>st tr_loss_hist val_loss_hist.
      run_training example_backend [[1], [2]] example_draw 0 example_tr_dataset example_val_dataset
        = Inr (st, tr_loss_hist, val_loss_hist)
    \<and> static_embed (variables st) = [[1], [2]]
    \<and> non_static_embed (variables st) = [[7]]
    \<and> length tr_loss_hist = 5"
proof -
  have run: "case run_training example_backend [[1], [2]] example_draw 0
                example_tr_dataset example_val_dataset of
       Inl e \<Rightarrow> False
     | Inr (st, h1, h2) \<Rightarrow> non_static_embed (variables st) = [[7]] \<and> length h1 = 5"
    by code_simp
  then obtain st h1 h2 where
    r: "run_training example_backend [[1], [2]] example_draw 0
          example_tr_dataset example_val_dataset = Inr (st, h1, h2)"
    and n: "non_static_embed (variables st) = [[7]]" "length h1 = 5"
    by (auto split: sum.splits)
  from static_table_unchanged_by_training
    [of "[[1], [2]]" example_draw _ _ _ example_backend _ 0 example_tr_dataset example_val_dataset]
    r
  have "static_embed (variables st) = [[1], [2]]"
    by blast
  with r n show ?thesis by blast
qed

end
